theory Spec2Isabelle
  imports Complex_Main "HOL-Library.Word" "HOL-Library.Sublist"
begin
section \<open>JavaScript values\<close>

text \<open>
  The worker (\<^verbatim>\<open>worker/src/index.ts\<close>, the newest revision of the chat endpoint) is
  embedded function by function. A JavaScript string is a sequence of UTF-16 code units and
  \<^verbatim>\<open>length\<close> counts code units, so strings are lists of 16-bit words; \<open>js\<close> turns an
  ASCII literal into such a list. A JavaScript number is a finite value or one of
  \<^verbatim>\<open>NaN\<close>, \<^verbatim>\<open>Infinity\<close>, \<^verbatim>\<open>-Infinity\<close>; finite values are taken as exact
  reals (the rounding of doubles beyond 2^53 is outside this model).
\<close>

type_synonym jschar = "16 word"
type_synonym jsstring = "jschar list"

definition js :: "string \<Rightarrow> jsstring" where
  "js s = map (\<lambda>c. of_nat (of_char c)) s"

datatype number = Fin real | NaN | PosInf | NegInf

text \<open>A value of type \<^verbatim>\<open>any\<close>; \<^verbatim>\<open>undefined\<close> is \<open>None\<close> of \<open>jsval option\<close>.\<close>

datatype jsval =
    JNull
  | JBool bool
  | JNum number
  | JStr jsstring
  | JArr "jsval list"
  | JObj "(jsstring \<times> jsval) list"

text \<open>
  Optional property access \<^verbatim>\<open>v?.k\<close>. Only plain data keys are read by the worker
  (never \<^verbatim>\<open>length\<close> or a prototype member of an untyped value), so the access is
  \<^verbatim>\<open>undefined\<close> on everything that is not an object with that key.
\<close>

fun getprop :: "jsval option \<Rightarrow> jsstring \<Rightarrow> jsval option" where
  "getprop (Some (JObj kvs)) k = map_of (rev kvs) k"
| "getprop _ k = None"

fun truthy :: "jsval \<Rightarrow> bool" where
  "truthy JNull = False"
| "truthy (JBool b) = b"
| "truthy (JNum n) = (n \<noteq> NaN \<and> n \<noteq> Fin 0)"
| "truthy (JStr s) = (s \<noteq> [])"
| "truthy (JArr _) = True"
| "truthy (JObj _) = True"

definition truthy_opt :: "jsval option \<Rightarrow> bool" where
  "truthy_opt v = (case v of None \<Rightarrow> False | Some x \<Rightarrow> truthy x)"

text \<open>\<^verbatim>\<open>typeof v === "object"\<close> for a truthy value.\<close>

fun is_object :: "jsval \<Rightarrow> bool" where
  "is_object (JArr _) = True"
| "is_object (JObj _) = True"
| "is_object _ = False"

text \<open>\<^verbatim>\<open>a ?? b\<close>: the right operand replaces \<^verbatim>\<open>null\<close> and \<^verbatim>\<open>undefined\<close>.\<close>

definition nullish :: "jsval option \<Rightarrow> jsval option \<Rightarrow> jsval option" where
  "nullish a b = (case a of None \<Rightarrow> b | Some JNull \<Rightarrow> b | Some v \<Rightarrow> Some v)"

text \<open>\<^verbatim>\<open>String.prototype.trim\<close>: white space and line terminators of ECMAScript.\<close>

definition is_space :: "jschar \<Rightarrow> bool" where
  "is_space c = (c \<in> {0x9, 0xA, 0xB, 0xC, 0xD, 0x20, 0xA0, 0x1680, 0x2028, 0x2029,
                       0x202F, 0x205F, 0x3000, 0xFEFF} \<or> (0x2000 \<le> c \<and> c \<le> 0x200A))"

definition trim :: "jsstring \<Rightarrow> jsstring" where
  "trim s = rev (dropWhile is_space (rev (dropWhile is_space s)))"

text \<open>
  The built-ins of the runtime that the worker calls and whose behaviour is not part of
  the repository: \<^verbatim>\<open>Number(s)\<close> and \<^verbatim>\<open>String(n)\<close> outside the decimal numerals,
  \<^verbatim>\<open>new URL(s)\<close> (\<open>None\<close> when it throws), \<^verbatim>\<open>JSON.parse\<close> (\<open>None\<close> when it
  throws), \<^verbatim>\<open>JSON.stringify\<close>, \<^verbatim>\<open>String(v)\<close> of a value that is not a string,
  \<^verbatim>\<open>toLowerCase\<close> and the calendar fields of \<^verbatim>\<open>Date\<close>. Every function below takes
  them as the parameter \<open>P\<close>.
\<close>

record url =
  url_protocol :: jsstring
  url_origin :: jsstring
  url_href :: jsstring

record platform =
  Number_other :: "jsstring \<Rightarrow> number"
  String_other :: "number \<Rightarrow> jsstring"
  URL_parse :: "jsstring \<Rightarrow> url option"
  JSON_parse :: "jsstring \<Rightarrow> jsval option"
  JSON_stringify :: "jsval \<Rightarrow> jsstring"
  String_value :: "jsval \<Rightarrow> jsstring"
  toLowerCase :: "jsstring \<Rightarrow> jsstring"
  utc_ymd :: "nat \<Rightarrow> nat \<times> nat \<times> nat"

subsection \<open>Decimal numerals\<close>

text \<open>
  \<^verbatim>\<open>String(n)\<close> of a natural number below 10^21 is its decimal numeral, and
  \<^verbatim>\<open>Number(s)\<close> of a non-empty string of decimal digits is its value as long as that
  is at most 2^53, where every integer is a double. A longer numeral is rounded, and from
  about 309 digits on it is \<^verbatim>\<open>Infinity\<close>: these and all other cases are left to the
  platform.
\<close>

definition digit_char :: "nat \<Rightarrow> jschar" where
  "digit_char d = of_nat (48 + d)"

definition is_digit :: "jschar \<Rightarrow> bool" where
  "is_digit c = (48 \<le> c \<and> c \<le> 57)"

definition digit_val :: "jschar \<Rightarrow> nat" where
  "digit_val c = unat c - 48"

fun decimal :: "nat \<Rightarrow> jsstring" where
  "decimal n = (if n < 10 then [digit_char n] else decimal (n div 10) @ [digit_char (n mod 10)])"

declare decimal.simps [simp del]

definition decimal_value :: "jsstring \<Rightarrow> nat" where
  "decimal_value s = foldl (\<lambda>a c. 10 * a + digit_val c) 0 s"

definition is_natural :: "real \<Rightarrow> bool" where
  "is_natural r = (0 \<le> r \<and> of_int \<lfloor>r\<rfloor> = r)"

definition Number_str :: "platform \<Rightarrow> jsstring \<Rightarrow> number" where
  "Number_str P s =
     (if s \<noteq> [] \<and> list_all is_digit s \<and> decimal_value s \<le> 2 ^ 53
      then Fin (of_nat (decimal_value s))
      else Number_other P s)"

definition String_num :: "platform \<Rightarrow> number \<Rightarrow> jsstring" where
  "String_num P n =
     (case n of
        Fin r \<Rightarrow> if is_natural r \<and> r < 10 ^ 21 then decimal (nat \<lfloor>r\<rfloor>) else String_other P n
      | _ \<Rightarrow> String_other P n)"

section \<open>Bot configuration\<close>

datatype ActionType = OpenContact | CreateLead | Webhook | NoAction

datatype LeadMode = Soft | Balanced | Direct

datatype RagMode = Simple | Embed


definition ActionType_of :: "jsval option \<Rightarrow> ActionType option" where
  "ActionType_of v =
     (case v of
        Some (JStr s) \<Rightarrow>
          if s = js ''open_contact'' then Some OpenContact
          else if s = js ''create_lead'' then Some CreateLead
          else if s = js ''webhook'' then Some Webhook
          else if s = js ''none'' then Some NoAction
          else None
      | _ \<Rightarrow> None)"

record BotActionConfig =
  actionsEnabled :: "bool option"
  webhookUrl :: "jsstring option"
  webhookAuthHeader :: "jsstring option"
  webhookSecret :: "jsstring option"
  allowedActionTypes :: "ActionType list option"

record RateLimitConfig =
  limit :: "number option"
  windowSeconds :: "number option"

record DailyBudgetConfig =
  maxRequestsPerDay :: "number option"
  maxTokensPerDay :: "number option"

record BotConfig =
  botId :: jsstring
  siteName :: "jsstring option"
  contactUrl :: "jsstring option"
  tone :: "jsstring option"
  model :: "jsstring option"
  maxTokens :: "number option"
  allowedOrigins :: "jsstring list option"
  botKey :: "jsstring option"
  leadMode :: "LeadMode option"
  qualifyingQuestions :: "jsstring list option"
  knowledge :: "jsstring option"
  knowledgeUrls :: "jsstring list option"
  ragEnabled :: "bool option"
  ragMode :: "RagMode option"
  ragMaxUrlsPerRequest :: "number option"
  ragTopKChunks :: "number option"
  ragChunkChars :: "number option"
  ragCacheTtlSeconds :: "number option"
  ragEmbeddingModel :: "jsstring option"
  maxTurns :: "number option"
  maxCharsPerMessage :: "number option"
  rateLimit :: "RateLimitConfig option"
  dailyBudget :: "DailyBudgetConfig option"
  actions :: "BotActionConfig option"
  schemaVersion :: "number option"

text \<open>The hard global caps.\<close>

definition GLOBAL_MAX_TOKENS :: real where "GLOBAL_MAX_TOKENS = 1024"
definition GLOBAL_MAX_TURNS :: real where "GLOBAL_MAX_TURNS = 30"
definition GLOBAL_MAX_CHARS_PER_MESSAGE :: real where "GLOBAL_MAX_CHARS_PER_MESSAGE = 8000"
definition GLOBAL_MAX_SYSTEM_CHARS :: nat where "GLOBAL_MAX_SYSTEM_CHARS = 30000"
definition GLOBAL_MAX_TOTAL_INPUT_CHARS :: nat where "GLOBAL_MAX_TOTAL_INPUT_CHARS = 75000"

subsection \<open>clampInt\<close>

definition Math_trunc :: "real \<Rightarrow> real" where
  "Math_trunc x = (if 0 \<le> x then of_int \<lfloor>x\<rfloor> else of_int \<lceil>x\<rceil>)"

definition clampInt :: "platform \<Rightarrow> jsval option \<Rightarrow> number \<Rightarrow> real \<Rightarrow> real \<Rightarrow> number" where
  "clampInt P n def mn mx =
     (let x = (case n of
                 Some (JNum v) \<Rightarrow> v
               | Some (JStr s) \<Rightarrow> Number_str P s
               | _ \<Rightarrow> NaN)
      in case x of
           Fin r \<Rightarrow> Fin (max mn (min mx (Math_trunc r)))
         | _ \<Rightarrow> def)"

subsection \<open>sanitizeUrlList, sanitizeOrigins\<close>



fun sanitizeOrigins_loop :: "platform \<Rightarrow> nat \<Rightarrow> jsval list \<Rightarrow> jsstring list \<Rightarrow> jsstring list" where
  "sanitizeOrigins_loop P mx [] out = out"
| "sanitizeOrigins_loop P mx (o1 # os) out =
     (case o1 of
        JStr o0 \<Rightarrow>
          (let s = trim o0 in
           if s = [] then sanitizeOrigins_loop P mx os out
           else case URL_parse P s of
                  None \<Rightarrow> sanitizeOrigins_loop P mx os out
                | Some u \<Rightarrow>
                    (let out' = out @ [url_origin u] in
                     if length out' \<ge> mx then out'
                     else sanitizeOrigins_loop P mx os out'))
      | _ \<Rightarrow> sanitizeOrigins_loop P mx os out)"

text \<open>\<^verbatim>\<open>Array.from(new Set(out))\<close>: the first occurrence of each element, in order.\<close>

definition dedup :: "'a list \<Rightarrow> 'a list" where
  "dedup xs = rev (remdups (rev xs))"

definition sanitizeOrigins :: "platform \<Rightarrow> jsval option \<Rightarrow> nat \<Rightarrow> jsstring list" where
  "sanitizeOrigins P origins mx =
     (case origins of Some (JArr os) \<Rightarrow> dedup (sanitizeOrigins_loop P mx os []) | _ \<Rightarrow> [])"

subsection \<open>normalizeActionConfig, normalizeDailyBudget\<close>



text \<open>\<^verbatim>\<open>typeof v.k === "string" ? v.k.trim() : ""\<close>\<close>

definition trimmed_string :: "jsval option \<Rightarrow> jsstring" where
  "trimmed_string v = (case v of Some (JStr s) \<Rightarrow> trim s | _ \<Rightarrow> [])"



text \<open>\<^verbatim>\<open>existing?.f ?? d\<close> for a numeric field of an optional record.\<close>

definition existing_or :: "'r option \<Rightarrow> ('r \<Rightarrow> number option) \<Rightarrow> real \<Rightarrow> number" where
  "existing_or ex f d = (case Option.bind ex f of Some n \<Rightarrow> n | None \<Rightarrow> Fin d)"


subsection \<open>normalizeConfig\<close>

datatype error = Error jsstring








subsection \<open>The configuration namespace and handleAdminUpsert\<close>

text \<open>
  The chat endpoint reads one thing from the namespace \<^verbatim>\<open>BOT_CONFIG\<close>, the record of the
  bot it serves (\<^verbatim>\<open>cfg:<botId>\<close>, parsed at the type \<^verbatim>\<open>BotConfig\<close>); \<open>cfg_store\<close> is
  that view, the record of each bot identifier.
\<close>

type_synonym cfg_store = "jsstring \<Rightarrow> BotConfig option"












subsection \<open>The documented ranges\<close>







subsection \<open>Writing the same request again\<close>



section \<open>The chat request pipeline\<close>

subsection \<open>Numbers of the counters\<close>

text \<open>\<^verbatim>\<open>a >= b\<close>, \<^verbatim>\<open>a > 0\<close>, \<^verbatim>\<open>a + b\<close> and \<^verbatim>\<open>Math.max(0, a)\<close> on JavaScript numbers.\<close>

fun num_ge :: "number \<Rightarrow> number \<Rightarrow> bool" where
  "num_ge NaN _ = False"
| "num_ge _ NaN = False"
| "num_ge PosInf _ = True"
| "num_ge _ NegInf = True"
| "num_ge NegInf _ = False"
| "num_ge _ PosInf = False"
| "num_ge (Fin x) (Fin y) = (x \<ge> y)"

fun num_pos :: "number \<Rightarrow> bool" where
  "num_pos (Fin x) = (x > 0)"
| "num_pos PosInf = True"
| "num_pos _ = False"

fun num_add :: "number \<Rightarrow> number \<Rightarrow> number" where
  "num_add NaN _ = NaN"
| "num_add _ NaN = NaN"
| "num_add PosInf NegInf = NaN"
| "num_add NegInf PosInf = NaN"
| "num_add PosInf _ = PosInf"
| "num_add _ PosInf = PosInf"
| "num_add NegInf _ = NegInf"
| "num_add _ NegInf = NegInf"
| "num_add (Fin x) (Fin y) = Fin (x + y)"

fun max0 :: "number \<Rightarrow> number" where
  "max0 (Fin x) = Fin (max 0 x)"
| "max0 NaN = NaN"
| "max0 PosInf = PosInf"
| "max0 NegInf = Fin 0"

text \<open>\<^verbatim>\<open>n || 0\<close> for a number.\<close>

fun or_zero :: "number \<Rightarrow> number" where
  "or_zero NaN = Fin 0"
| "or_zero n = n"

text \<open>\<^verbatim>\<open>Number(v)\<close> of a value: an object goes through its string form.\<close>

definition Number_value :: "platform \<Rightarrow> jsval \<Rightarrow> number" where
  "Number_value P v =
     (case v of
        JNum n \<Rightarrow> n
      | JStr s \<Rightarrow> Number_str P s
      | JBool b \<Rightarrow> Fin (if b then 1 else 0)
      | JNull \<Rightarrow> Fin 0
      | _ \<Rightarrow> Number_str P (String_value P v))"

text \<open>\<^verbatim>\<open>String(v)\<close>\<close>

definition String_of :: "platform \<Rightarrow> jsval \<Rightarrow> jsstring" where
  "String_of P v = (case v of JStr s \<Rightarrow> s | _ \<Rightarrow> String_value P v)"

definition safeJsonParse :: "platform \<Rightarrow> jsstring \<Rightarrow> jsval" where
  "safeJsonParse P s = (case JSON_parse P s of Some v \<Rightarrow> v | None \<Rightarrow> JNull)"

subsection \<open>Requests, responses, the cache and the remote services\<close>

text \<open>
  A request is its headers (by lower-case name) and the result of
  \<^verbatim>\<open>req.json().catch(() => null)\<close>. The cache namespace \<^verbatim>\<open>KB_CACHE\<close> maps string keys to
  string values; expiry only removes entries and is not modelled.
\<close>

record request =
  headers :: "jsstring \<Rightarrow> jsstring option"
  json_body :: jsval

type_synonym kv = "jsstring \<Rightarrow> jsstring option"

record env =
  BOT_CONFIG :: cfg_store
  KB_CACHE :: kv

datatype Role = User | Assistant | System

record ChatMessage =
  role :: Role
  content :: jsstring

record ChatAction =
  action_type :: ActionType
  contactUrl_of :: "jsstring option"
  payload :: "jsval option"

record ChatOk =
  message :: jsstring
  reply :: jsstring
  raw :: "jsval option"
  action :: "ChatAction option"

record ChatErr =
  error :: jsstring
  detail :: jsval

datatype chat_body = Ok ChatOk | Err ChatErr

record response =
  status :: nat
  body :: chat_body
  requestId :: jsstring
  extra_headers :: "(jsstring \<times> jsstring) list"

text \<open>
  What lies outside the worker: the two readings of \<^verbatim>\<open>Date.now()\<close> (rate-limit bucket,
  budget day), the inference call \<^verbatim>\<open>env.AI.run(model, {messages, max_tokens})\<close>, which
  throws a value or returns one, and the retrieval step \<^verbatim>\<open>buildRagBlock\<close>, which returns
  its context block and writes page texts under \<^verbatim>\<open>kb:<url>\<close> and embeddings under
  \<^verbatim>\<open>emb:<hash>\<close>. \<^verbatim>\<open>buildSystemPrompt\<close> is a pure string builder of the configuration;
  nothing below depends on its text, so it is a parameter as well.
\<close>

datatype ai_outcome = AiThrows "jsval option" | AiReturns "jsval option"

datatype rag_write = PageText jsstring jsstring | Embedding jsstring jsstring

record services =
  now_rate :: nat
  now_budget :: nat
  AI_run :: "jsstring \<Rightarrow> ChatMessage list \<Rightarrow> number \<Rightarrow> ai_outcome"
  buildRagBlock :: "kv \<Rightarrow> BotConfig \<Rightarrow> jsstring \<Rightarrow> jsstring \<times> rag_write list"
  buildSystemPrompt :: "BotConfig \<Rightarrow> jsstring"

fun apply_rag_write :: "kv \<Rightarrow> rag_write \<Rightarrow> kv" where
  "apply_rag_write c (PageText u t) = c(js ''kb:'' @ u \<mapsto> t)"
| "apply_rag_write c (Embedding h v) = c(js ''emb:'' @ h \<mapsto> v)"

definition json :: "nat \<Rightarrow> chat_body \<Rightarrow> jsstring \<Rightarrow> (jsstring \<times> jsstring) list \<Rightarrow> response" where
  "json st b rid hs = \<lparr> status = st, body = b, requestId = rid, extra_headers = hs \<rparr>"

definition chat_err :: "jsstring \<Rightarrow> jsval \<Rightarrow> chat_body" where
  "chat_err e d = Err \<lparr> error = e, detail = d \<rparr>"

text \<open>A response that is the rejection by the rate limiter.\<close>

definition is_rate_limited :: "response \<Rightarrow> bool" where
  "is_rate_limited r = (case body r of Err b \<Rightarrow> error b = js ''RATE_LIMITED'' | Ok _ \<Rightarrow> False)"

subsection \<open>Origin\<close>

definition getHeader :: "request \<Rightarrow> jsstring \<Rightarrow> jsstring" where
  "getHeader req name = (case headers req name of Some v \<Rightarrow> v | None \<Rightarrow> [])"

text \<open>\<^verbatim>\<open>a || b\<close> on strings.\<close>

definition or_else :: "jsstring \<Rightarrow> jsstring \<Rightarrow> jsstring" where
  "or_else a b = (if a \<noteq> [] then a else b)"

definition getRequestOrigin :: "request \<Rightarrow> jsstring" where
  "getRequestOrigin req =
     (let o1 = getHeader req (js ''origin'') in
      if o1 \<noteq> [] then o1
      else
        let proto = or_else (getHeader req (js ''x-forwarded-proto''))
                      (or_else (getHeader req (js ''x-forwarded-protocol'')) (js ''https''));
            host = or_else (getHeader req (js ''x-forwarded-host'')) (getHeader req (js ''host''))
        in if host \<noteq> [] then proto @ js ''://'' @ host else [])"

definition isOriginAllowed :: "platform \<Rightarrow> jsstring \<Rightarrow> jsstring list option \<Rightarrow> bool" where
  "isOriginAllowed P origin1 allowed =
     (if origin1 = [] then False
      else if allowed = None \<or> allowed = Some [] then True
      else case URL_parse P origin1 of
             Some u \<Rightarrow> url_origin u \<in> set (the allowed)
           | None \<Rightarrow> False)"

text \<open>The response headers \<^verbatim>\<open>...(origin ? { "Access-Control-Allow-Origin": origin, Vary: "Origin" } : {})\<close>.\<close>

definition cors :: "jsstring \<Rightarrow> (jsstring \<times> jsstring) list" where
  "cors origin1 =
     (if origin1 \<noteq> [] then [(js ''Access-Control-Allow-Origin'', origin1), (js ''Vary'', js ''Origin'')]
      else [])"

subsection \<open>Rate limiting\<close>

definition ipFromReq :: "request \<Rightarrow> jsstring" where
  "ipFromReq req =
     (let ip = or_else (getHeader req (js ''cf-connecting-ip'')) (getHeader req (js ''x-forwarded-for''))
      in or_else (trim (takeWhile (\<lambda>c. c \<noteq> 0x2C) ip)) (js ''unknown''))"

text \<open>\<^verbatim>\<open>Math.floor(Date.now() / (windowSeconds * 1000))\<close>\<close>

fun window_bucket :: "nat \<Rightarrow> number \<Rightarrow> number" where
  "window_bucket t (Fin w) =
     (if w = 0 then (if t = 0 then NaN else PosInf)
      else Fin (of_int \<lfloor>of_nat t / (w * 1000)\<rfloor>))"
| "window_bucket t NaN = NaN"
| "window_bucket t PosInf = Fin 0"
| "window_bucket t NegInf = Fin 0"

definition rate_key :: "platform \<Rightarrow> jsstring \<Rightarrow> jsstring \<Rightarrow> number \<Rightarrow> jsstring" where
  "rate_key P bid ip bucket = js ''rl:'' @ bid @ js '':'' @ ip @ js '':'' @ String_num P bucket"

record rate_check =
  rl_ok :: bool
  rl_limit :: number
  rl_windowSeconds :: number

definition checkRateLimit ::
    "platform \<Rightarrow> nat \<Rightarrow> kv \<Rightarrow> jsstring \<Rightarrow> request \<Rightarrow> BotConfig option \<Rightarrow> rate_check \<times> kv" where
  "checkRateLimit P t cache bid req cfg =
     (let rl = Option.bind cfg rateLimit;
          lim = existing_or rl limit 12;
          ws = existing_or rl windowSeconds 60;
          ip = ipFromReq req;
          key = rate_key P bid ip (window_bucket t ws);
          current = or_zero (Number_str P (or_else (case cache key of Some v \<Rightarrow> v | None \<Rightarrow> []) (js ''0'')))
      in if num_ge current lim
         then (\<lparr> rl_ok = False, rl_limit = lim, rl_windowSeconds = ws \<rparr>, cache)
         else (\<lparr> rl_ok = True, rl_limit = lim, rl_windowSeconds = ws \<rparr>,
               cache(key \<mapsto> String_num P (num_add current (Fin 1)))))"

subsection \<open>Daily budgets\<close>

definition padStart2 :: "jsstring \<Rightarrow> jsstring" where
  "padStart2 s = replicate (2 - length s) 0x30 @ s"

text \<open>\<open>utc_ymd\<close> gives the UTC year, the month (1 to 12) and the day of the month of a time stamp.\<close>

definition utcDayKey :: "platform \<Rightarrow> nat \<Rightarrow> jsstring" where
  "utcDayKey P ts =
     (case utc_ymd P ts of
        (yyyy, mm, dd) \<Rightarrow> decimal yyyy @ padStart2 (decimal mm) @ padStart2 (decimal dd))"

record BudgetState =
  requests :: number
  tokens :: number

definition budget_key :: "jsstring \<Rightarrow> jsstring \<Rightarrow> jsstring" where
  "budget_key bid dayKey = js ''bud:v1:'' @ dayKey @ js '':'' @ bid"

definition getBudgetState :: "platform \<Rightarrow> kv \<Rightarrow> jsstring \<Rightarrow> jsstring \<Rightarrow> BudgetState" where
  "getBudgetState P cache bid dayKey =
     (let rawv = cache (budget_key bid dayKey);
          parsed = (case rawv of
                      Some s \<Rightarrow> if s \<noteq> [] then safeJsonParse P s else JNull
                    | None \<Rightarrow> JNull);
          num = (\<lambda>k. or_zero (Number_value P
                   (case nullish (getprop (Some parsed) k) (Some (JNum (Fin 0))) of
                      Some v \<Rightarrow> v | None \<Rightarrow> JNum (Fin 0))))
      in \<lparr> requests = num (js ''requests''), tokens = num (js ''tokens'') \<rparr>)"

definition BudgetState_value :: "BudgetState \<Rightarrow> jsval" where
  "BudgetState_value st = JObj [(js ''requests'', JNum (requests st)), (js ''tokens'', JNum (tokens st))]"

definition putBudgetState :: "platform \<Rightarrow> kv \<Rightarrow> jsstring \<Rightarrow> jsstring \<Rightarrow> BudgetState \<Rightarrow> kv" where
  "putBudgetState P cache bid dayKey st =
     cache(budget_key bid dayKey \<mapsto> JSON_stringify P (BudgetState_value st))"

datatype budget_check =
    BudgetExceeded jsstring
  | BudgetOk "(jsstring \<times> BudgetState) option"

definition checkDailyBudget :: "platform \<Rightarrow> nat \<Rightarrow> kv \<Rightarrow> BotConfig \<Rightarrow> budget_check" where
  "checkDailyBudget P t cache cfg =
     (case dailyBudget cfg of
        None \<Rightarrow> BudgetOk None
      | Some b \<Rightarrow>
          let maxReq = clampInt P (map_option JNum (maxRequestsPerDay b)) (Fin 0) 0 100000000;
              maxTok = clampInt P (map_option JNum (maxTokensPerDay b)) (Fin 0) 0 100000000
          in if \<not> num_pos maxReq \<and> \<not> num_pos maxTok then BudgetOk None
             else
               let dayKey = utcDayKey P t;
                   st = getBudgetState P cache (botId cfg) dayKey
               in if num_pos maxReq \<and> num_ge (requests st) maxReq
                  then BudgetExceeded
                         (js ''Daily request budget exceeded for botId '' @ [0x22] @ botId cfg @ [0x22, 0x2E])
                  else if num_pos maxTok \<and> num_ge (tokens st) maxTok
                  then BudgetExceeded
                         (js ''Daily token budget exceeded for botId '' @ [0x22] @ botId cfg @ [0x22, 0x2E])
                  else BudgetOk (Some (dayKey, st)))"

definition incrementDailyBudget ::
    "platform \<Rightarrow> kv \<Rightarrow> BotConfig \<Rightarrow> jsstring \<Rightarrow> BudgetState \<Rightarrow> number \<Rightarrow> number \<Rightarrow> kv" where
  "incrementDailyBudget P cache cfg dayKey st addRequests addTokens =
     putBudgetState P cache (botId cfg) dayKey
       \<lparr> requests = max0 (num_add (requests st) (max0 addRequests)),
         tokens = max0 (num_add (tokens st) (max0 addTokens)) \<rparr>"

subsection \<open>Prompt assembly\<close>

definition truncateTextToLimit :: "jsstring \<Rightarrow> nat \<Rightarrow> jsstring" where
  "truncateTextToLimit s maxChars =
     (if length s \<le> maxChars then s else take (maxChars - 1) s @ [0x2026])"

text \<open>The integer value of a number that \<open>clampInt\<close> returned.\<close>

definition nat_of_number :: "number \<Rightarrow> nat" where
  "nat_of_number n = (case n of Fin r \<Rightarrow> nat \<lfloor>r\<rfloor> | _ \<Rightarrow> 0)"

text \<open>One pass of the loop over \<^verbatim>\<open>messages.slice(-maxTurns)\<close>.\<close>

definition trim_turn :: "platform \<Rightarrow> nat \<Rightarrow> jsval \<Rightarrow> ChatMessage option" where
  "trim_turn P maxChars m =
     (if \<not> truthy m \<or> \<not> is_object m then None
      else
        let r = getprop (Some m) (js ''role'') in
        if r \<noteq> Some (JStr (js ''user'')) \<and> r \<noteq> Some (JStr (js ''assistant'')) then None
        else
          let c = take maxChars
                    (String_of P (case nullish (getprop (Some m) (js ''content'')) (Some (JStr [])) of
                                    Some v \<Rightarrow> v | None \<Rightarrow> JStr []))
          in if c = [] then None
             else Some \<lparr> role = (if r = Some (JStr (js ''user'')) then User else Assistant),
                         content = c \<rparr>)"

definition trim_messages :: "platform \<Rightarrow> BotConfig \<Rightarrow> jsval list \<Rightarrow> ChatMessage list" where
  "trim_messages P cfg messages =
     (let maxTurns1 = nat_of_number (clampInt P (map_option JNum (maxTurns cfg)) (Fin 20) 4 GLOBAL_MAX_TURNS);
          maxChars = nat_of_number (clampInt P (map_option JNum (maxCharsPerMessage cfg)) (Fin 4000) 200
                                      GLOBAL_MAX_CHARS_PER_MESSAGE)
      in List.map_filter (trim_turn P maxChars) (drop (length messages - maxTurns1) messages))"

definition total_chars :: "ChatMessage list \<Rightarrow> nat" where
  "total_chars ms = sum_list (map (\<lambda>m. length (content m)) ms)"

text \<open>
  The loop \<^verbatim>\<open>for (let i = input.length - 1; i >= 1; i--)\<close>: \<open>rest\<close> holds
  \<^verbatim>\<open>input[i], input[i-1], ..., input[1]\<close> and \<open>kept\<close> the turns inserted so far after the
  system message.
\<close>

fun keep_loop :: "ChatMessage \<Rightarrow> ChatMessage list \<Rightarrow> ChatMessage list \<Rightarrow> ChatMessage list" where
  "keep_loop sys [] kept = sys # kept"
| "keep_loop sys (m # rest) kept =
     (if total_chars (sys # m # kept) > GLOBAL_MAX_TOTAL_INPUT_CHARS then sys # kept
      else keep_loop sys rest (m # kept))"

definition cap_input :: "ChatMessage list \<Rightarrow> ChatMessage list" where
  "cap_input inp =
     (if total_chars inp > GLOBAL_MAX_TOTAL_INPUT_CHARS
      then (case inp of [] \<Rightarrow> [] | sys # turns \<Rightarrow> keep_loop sys (rev turns) [])
      else inp)"

definition system_message :: "services \<Rightarrow> BotConfig \<Rightarrow> jsstring \<Rightarrow> ChatMessage" where
  "system_message S cfg ragBlock =
     (let systemPrompt = buildSystemPrompt S cfg;
          knowledge1 = (case knowledge cfg of
                          Some k \<Rightarrow> if trim k \<noteq> []
                                    then [0x0A] @ js ''Website notes:'' @ [0x0A] @ trim k @ [0x0A] else []
                        | None \<Rightarrow> []);
          systemContent = truncateTextToLimit (systemPrompt @ knowledge1 @ ragBlock) GLOBAL_MAX_SYSTEM_CHARS
      in \<lparr> role = System, content = systemContent \<rparr>)"

definition assemble_input :: "services \<Rightarrow> BotConfig \<Rightarrow> jsstring \<Rightarrow> ChatMessage list \<Rightarrow> ChatMessage list" where
  "assemble_input S cfg ragBlock trimmed = cap_input (system_message S cfg ragBlock # trimmed)"

definition estimateTokensFromText :: "jsstring \<Rightarrow> nat" where
  "estimateTokensFromText s = max 1 ((length s + 3) div 4)"

subsection \<open>The model output\<close>

text \<open>\<^verbatim>\<open>v?.k && typeof v.k === "string" ? v.k : ""\<close>\<close>

definition string_prop :: "jsval option \<Rightarrow> jsstring \<Rightarrow> jsstring" where
  "string_prop v k = (case getprop v k of Some (JStr s) \<Rightarrow> s | _ \<Rightarrow> [])"

definition rawText_of :: "jsval option \<Rightarrow> jsstring" where
  "rawText_of aiResult =
     or_else (string_prop aiResult (js ''response''))
       (or_else (string_prop (getprop aiResult (js ''result'')) (js ''response''))
          (or_else (string_prop aiResult (js ''output_text'')) []))"

text \<open>\<^verbatim>\<open>a || b\<close> on optional values.\<close>

definition or_value :: "jsval option \<Rightarrow> jsval option \<Rightarrow> jsval option" where
  "or_value a b = (if truthy_opt a then a else b)"

definition totalTokensFromModel :: "jsval option \<Rightarrow> number option" where
  "totalTokensFromModel aiResult =
     (let usage = or_value (getprop aiResult (js ''usage''))
                    (or_value (getprop (getprop aiResult (js ''result'')) (js ''usage''))
                       (or_value (getprop (getprop aiResult (js ''raw'')) (js ''usage'')) (Some JNull)))
      in case getprop usage (js ''total_tokens'') of
           Some (JNum n) \<Rightarrow> Some n
         | _ \<Rightarrow> (case getprop usage (js ''totalTokens'') of
                   Some (JNum n) \<Rightarrow> Some n
                 | _ \<Rightarrow> None))"

definition extractActionFromModelOutput ::
    "platform \<Rightarrow> jsstring \<Rightarrow> jsstring \<times> (ActionType \<times> jsval option) option" where
  "extractActionFromModelOutput P rawText =
     (let trimmed = trim rawText;
          parsed = safeJsonParse P trimmed;
          msg = string_prop (Some parsed) (js ''message'');
          act = getprop (Some parsed) (js ''action'')
      in if trimmed \<noteq> [] \<and> hd trimmed = 0x7B \<and> last trimmed = 0x7D \<and> truthy parsed \<and> is_object parsed
         then (if truthy_opt act \<and> is_object (the act) \<and> ActionType_of (getprop act (js ''type'')) \<noteq> None
               then (msg, Some (the (ActionType_of (getprop act (js ''type''))), getprop act (js ''payload'')))
               else if msg \<noteq> [] then (msg, None)
               else (trimmed, None))
         else (trimmed, None))"

text \<open>The server-side enforcement of the action policy in \<^verbatim>\<open>handleChat\<close>.\<close>

definition enforce_policy ::
    "BotConfig \<Rightarrow> (ActionType \<times> jsval option) option \<Rightarrow> (ActionType \<times> jsval option) option" where
  "enforce_policy cfg act =
     (case act of
        None \<Rightarrow> None
      | Some (t, p) \<Rightarrow>
          let enabled = (Option.bind (actions cfg) actionsEnabled = Some True);
              allowed = (case Option.bind (actions cfg) allowedActionTypes of
                           Some (a # as) \<Rightarrow> a # as
                         | _ \<Rightarrow> if enabled then [OpenContact, CreateLead, Webhook, NoAction] else [NoAction])
          in if \<not> enabled then None
             else if t \<notin> set allowed then Some (NoAction, None)
             else Some (t, p))"

definition fallback_message :: jsstring where
  "fallback_message = js ''Sorry '' @ [0x2014] @ js '' I couldn'' @ [0x2019] @ js ''t generate a response.''"

definition safeMessage :: "jsstring \<Rightarrow> jsstring" where
  "safeMessage m = or_else (trim m) fallback_message"

definition chat_ok ::
    "BotConfig \<Rightarrow> bool \<Rightarrow> jsval option \<Rightarrow> jsstring \<Rightarrow> (ActionType \<times> jsval option) option \<Rightarrow> chat_body" where
  "chat_ok cfg debug aiResult m finalAction =
     Ok \<lparr> message = safeMessage m,
          reply = safeMessage m,
          raw = (if debug then aiResult else None),
          action = (case finalAction of
                      None \<Rightarrow> None
                    | Some (t, p) \<Rightarrow>
                        Some \<lparr> action_type = t,
                               contactUrl_of = (if t = OpenContact
                                                then Some (case contactUrl cfg of
                                                             Some u \<Rightarrow> or_else u (js ''/contact'')
                                                           | None \<Rightarrow> js ''/contact'')
                                                else None),
                               payload = p \<rparr>) \<rparr>"

subsection \<open>handleChat\<close>

text \<open>
  The result of one request: the response, the cache afterwards, and the inference call
  that was made, if any (model, messages, \<^verbatim>\<open>max_tokens\<close>).
\<close>

record chat_result =
  resp :: response
  cache_after :: kv
  sent :: "(jsstring \<times> ChatMessage list \<times> number) option"

text \<open>The steps before the rate limit: body, bot lookup, bot key, origin.\<close>

record admission =
  adm_cfg :: BotConfig
  adm_botId :: jsstring
  adm_messages :: "jsval list"
  adm_debug :: bool
  adm_origin :: jsstring

definition getBotKeyFromReq :: "request \<Rightarrow> jsval \<Rightarrow> jsstring" where
  "getBotKeyFromReq req b =
     or_else (trim (getHeader req (js ''x-bot-key''))) (trimmed_string (getprop (Some b) (js ''botKey'')))"

definition admit :: "platform \<Rightarrow> cfg_store \<Rightarrow> request \<Rightarrow> jsstring \<Rightarrow> response + admission" where
  "admit P store req rid =
     (let b = json_body req in
      if \<not> truthy b \<or> \<not> is_object b
      then Inl (json 400 (chat_err (js ''BAD_REQUEST'') (JStr (js ''Expected JSON.''))) rid [])
      else
        let bid = trimmed_string (getprop (Some b) (js ''botId''));
            messages = (case getprop (Some b) (js ''messages'') of Some (JArr ms) \<Rightarrow> ms | _ \<Rightarrow> []);
            debug = truthy_opt (getprop (Some b) (js ''debug''))
        in if bid = [] \<or> messages = []
           then Inl (json 400 (chat_err (js ''BAD_REQUEST'') (JStr (js ''Expected { botId, messages[] }.''))) rid [])
           else case store bid of
                  None \<Rightarrow> Inl (json 404 (chat_err (js ''NOT_FOUND'') (JStr (js ''Unknown botId.''))) rid [])
                | Some cfg \<Rightarrow>
                    let key = (case botKey cfg of Some k \<Rightarrow> trim k | None \<Rightarrow> []);
                        provided = getBotKeyFromReq req b
                    in if key \<noteq> [] \<and> (provided = [] \<or> provided \<noteq> key)
                       then Inl (json 401 (chat_err (js ''UNAUTHORIZED'') (JStr (js ''Missing/invalid botKey.''))) rid [])
                       else
                         let origin1 = getRequestOrigin req in
                         if origin1 \<noteq> [] \<and> \<not> isOriginAllowed P origin1 (allowedOrigins cfg)
                         then Inl (json 403 (chat_err (js ''FORBIDDEN_ORIGIN'') (JStr (js ''Origin not allowed.''))) rid
                                     [(js ''Access-Control-Allow-Origin'', js ''null''), (js ''Vary'', js ''Origin'')])
                         else Inr \<lparr> adm_cfg = cfg, adm_botId = bid, adm_messages = messages,
                                    adm_debug = debug, adm_origin = origin1 \<rparr>)"

text \<open>
  After a successful inference call: budget accounting, action policy, the 200 response.
  \<^verbatim>\<open>maybeFireWebhook\<close> only posts to the configured webhook and swallows every failure;
  it touches neither the cache nor the response and is left out.
\<close>

definition totalTokensEstimate :: "ChatMessage list \<Rightarrow> jsval option \<Rightarrow> number" where
  "totalTokensEstimate inp aiResult =
     (let estimatedPromptTokens = sum_list (map (\<lambda>m. estimateTokensFromText (content m)) inp);
          completionTokensEstimate = estimateTokensFromText (rawText_of aiResult)
      in case totalTokensFromModel aiResult of
           Some n \<Rightarrow> n
         | None \<Rightarrow> Fin (of_nat (estimatedPromptTokens + completionTokensEstimate)))"

definition finish ::
    "platform \<Rightarrow> admission \<Rightarrow> jsstring \<Rightarrow> kv \<Rightarrow> (jsstring \<times> BudgetState) option
     \<Rightarrow> ChatMessage list \<Rightarrow> jsval option \<Rightarrow> response \<times> kv" where
  "finish P a rid cache budget inp aiResult =
     (let cfg = adm_cfg a;
          rawText = rawText_of aiResult;
          cache1 = (case budget of
                      Some (dayKey, st) \<Rightarrow>
                        if dayKey \<noteq> []
                        then incrementDailyBudget P cache cfg dayKey st (Fin 1)
                               (totalTokensEstimate inp aiResult)
                        else cache
                    | None \<Rightarrow> cache);
          ex = extractActionFromModelOutput P rawText;
          finalAction = enforce_policy cfg (snd ex)
      in (json 200 (chat_ok cfg (adm_debug a) aiResult (fst ex) finalAction) rid
            (cors (adm_origin a)
             @ [(js ''Access-Control-Allow-Headers'', js ''Content-Type, Authorization, x-bot-key''),
                (js ''Access-Control-Allow-Methods'', js ''POST, OPTIONS''),
                (js ''x-request-id'', rid)]),
          cache1))"

text \<open>\<^verbatim>\<open>e?.message || "AI call failed."\<close>\<close>

definition ai_error_detail :: "jsval option \<Rightarrow> jsval" where
  "ai_error_detail e =
     (if truthy_opt (getprop e (js ''message'')) then the (getprop e (js ''message''))
      else JStr (js ''AI call failed.''))"

text \<open>
  Between the message trimming and the inference call: the retrieval step with its cache
  writes, the assembled input, the model and the token ceiling.
\<close>

definition prepare ::
    "platform \<Rightarrow> services \<Rightarrow> BotConfig \<Rightarrow> kv \<Rightarrow> ChatMessage list
     \<Rightarrow> kv \<times> jsstring \<times> ChatMessage list \<times> number" where
  "prepare P S cfg cache trimmed =
     (let lastUser = (case filter (\<lambda>m. role m = User) (rev trimmed) of m # _ \<Rightarrow> content m | [] \<Rightarrow> []);
          rag = buildRagBlock S cache cfg lastUser;
          cache1 = foldl apply_rag_write cache (snd rag);
          inp = assemble_input S cfg (fst rag) trimmed;
          model1 = or_else (case model cfg of Some m \<Rightarrow> trim m | None \<Rightarrow> [])
                     (js ''@cf/meta/llama-3-8b-instruct'');
          maxTokens1 = clampInt P (map_option JNum (maxTokens cfg)) (Fin 512) 64 GLOBAL_MAX_TOKENS
      in (cache1, model1, inp, maxTokens1))"

text \<open>From the message trimming to the response.\<close>

definition converse ::
    "platform \<Rightarrow> services \<Rightarrow> admission \<Rightarrow> jsstring \<Rightarrow> kv \<Rightarrow> (jsstring \<times> BudgetState) option
     \<Rightarrow> chat_result" where
  "converse P S a rid cache budget =
     (let trimmed = trim_messages P (adm_cfg a) (adm_messages a)
      in if trimmed = []
         then \<lparr> resp = json 400 (chat_err (js ''BAD_REQUEST'') (JStr (js ''No valid messages.''))) rid [],
                cache_after = cache, sent = None \<rparr>
         else
           case prepare P S (adm_cfg a) cache trimmed of
             (cache1, model1, inp, maxTokens1) \<Rightarrow>
               (case AI_run S model1 inp maxTokens1 of
                  AiThrows e \<Rightarrow>
                    \<lparr> resp = json 502 (chat_err (js ''AI_ERROR'') (ai_error_detail e)) rid (cors (adm_origin a)),
                      cache_after = cache1, sent = Some (model1, inp, maxTokens1) \<rparr>
                | AiReturns aiResult \<Rightarrow>
                    (case finish P a rid cache1 budget inp aiResult of
                       (r, cache2) \<Rightarrow>
                         \<lparr> resp = r, cache_after = cache2, sent = Some (model1, inp, maxTokens1) \<rparr>)))"

text \<open>The rate limit and the daily budget, then the conversation.\<close>

definition serve :: "platform \<Rightarrow> services \<Rightarrow> kv \<Rightarrow> request \<Rightarrow> jsstring \<Rightarrow> admission \<Rightarrow> chat_result" where
  "serve P S cache req rid a =
     (case checkRateLimit P (now_rate S) cache (adm_botId a) req (Some (adm_cfg a)) of
        (rl, cache1) \<Rightarrow>
          if \<not> rl_ok rl
          then \<lparr> resp = json 429
                          (chat_err (js ''RATE_LIMITED'')
                             (JStr (js ''Too many requests. Limit '' @ String_num P (rl_limit rl) @ js ''/''
                                    @ String_num P (rl_windowSeconds rl) @ js ''s.'')))
                          rid
                          (cors (adm_origin a) @ [(js ''Retry-After'', String_num P (rl_windowSeconds rl))]),
                 cache_after = cache1, sent = None \<rparr>
          else case checkDailyBudget P (now_budget S) cache1 (adm_cfg a) of
                 BudgetExceeded d \<Rightarrow>
                   \<lparr> resp = json 429 (chat_err (js ''BUDGET_EXCEEDED'') (JStr d)) rid
                              (cors (adm_origin a) @ [(js ''Retry-After'', js ''3600'')]),
                     cache_after = cache1, sent = None \<rparr>
               | BudgetOk budget \<Rightarrow> converse P S a rid cache1 budget)"

definition handleChat :: "platform \<Rightarrow> services \<Rightarrow> env \<Rightarrow> request \<Rightarrow> jsstring \<Rightarrow> chat_result" where
  "handleChat P S e req rid =
     (case admit P (BOT_CONFIG e) req rid of
        Inl r \<Rightarrow> \<lparr> resp = r, cache_after = KB_CACHE e, sent = None \<rparr>
      | Inr a \<Rightarrow> serve P S (KB_CACHE e) req rid a)"

section \<open>URL selection of the simple retrieval mode\<close>

text \<open>\<^verbatim>\<open>\W\<close> of a regular expression without flags: everything but \<^verbatim>\<open>[A-Za-z0-9_]\<close>.\<close>

definition is_word :: "jschar \<Rightarrow> bool" where
  "is_word c = ((0x41 \<le> c \<and> c \<le> 0x5A) \<or> (0x61 \<le> c \<and> c \<le> 0x7A)
                \<or> (0x30 \<le> c \<and> c \<le> 0x39) \<or> c = 0x5F)"

text \<open>\<^verbatim>\<open>q.split(/\W+/g).filter(Boolean)\<close>: the maximal runs of word characters.\<close>

fun word_runs :: "jsstring \<Rightarrow> jsstring \<Rightarrow> jsstring list" where
  "word_runs cur [] = (if cur = [] then [] else [cur])"
| "word_runs cur (c # cs) =
     (if is_word c then word_runs (cur @ [c]) cs
      else (if cur = [] then [] else [cur]) @ word_runs [] cs)"

text \<open>\<^verbatim>\<open>p.includes(t)\<close>\<close>

definition includes_str :: "jsstring \<Rightarrow> jsstring \<Rightarrow> bool" where
  "includes_str p t = sublist t p"

definition url_score :: "platform \<Rightarrow> jsstring \<Rightarrow> jsstring \<Rightarrow> nat" where
  "url_score P q u =
     (let p = toLowerCase P u;
          terms = take 20 (word_runs [] q);
          s0 = sum_list (map (\<lambda>t. if length t < 3 then 0 else if includes_str p t then 2 else 0) terms);
          s1 = (if (includes_str q (js ''price'') \<or> includes_str q (js ''pricing'') \<or> includes_str q (js ''cost''))
                   \<and> includes_str p (js ''pricing'') then s0 + 5 else s0);
          s2 = (if (includes_str q (js ''contact'') \<or> includes_str q (js ''quote''))
                   \<and> includes_str p (js ''contact'') then s1 + 5 else s1);
          s3 = (if includes_str q (js ''privacy'') \<and> includes_str p (js ''privacy'') then s2 + 5 else s2);
          s4 = (if includes_str q (js ''terms'') \<and> includes_str p (js ''terms'') then s3 + 5 else s3)
      in s4)"

text \<open>
  \<^verbatim>\<open>scored.sort((a, b) => b.score - a.score)\<close> is a stable sort by descending score
  (\<^verbatim>\<open>Array.prototype.sort\<close> is stable), as \<open>sort_key\<close> is. The cap \<open>mx\<close> is the integer
  that \<open>clampInt\<close> returned to \<^verbatim>\<open>buildRagBlock\<close>.
\<close>

definition selectRelevantUrls :: "platform \<Rightarrow> jsstring \<Rightarrow> jsstring list \<Rightarrow> int \<Rightarrow> jsstring list" where
  "selectRelevantUrls P question urls mx =
     (if urls = [] \<or> mx \<le> 0 then []
      else
        let q = toLowerCase P question;
            scored = map (\<lambda>u. (u, url_score P q u)) urls
        in map fst (take (nat mx) (sort_key (\<lambda>s. - int (snd s)) scored)))"

section \<open>Assumption on the URL parser, and a runtime for the worked examples\<close>

text \<open>
  Re-parsing what the URL parser printed gives the same URL: the serialisation of a parsed
  URL parses again to the same serialisation and scheme, and the origin of a parsed URL, when
  it parses at all (the opaque origin \<^verbatim>\<open>null\<close> does not), has itself as origin.
\<close>

definition URL_stable :: "platform \<Rightarrow> bool" where
  "URL_stable P =
     (\<forall>s u. URL_parse P s = Some u \<longrightarrow>
        trim (url_href u) \<noteq> []
        \<and> (\<exists>u'. URL_parse P (trim (url_href u)) = Some u'
                 \<and> url_href u' = url_href u \<and> url_protocol u' = url_protocol u)
        \<and> (\<forall>u'. URL_parse P (trim (url_origin u)) = Some u' \<longrightarrow> url_origin u' = url_origin u))"

text \<open>
  The examples below run on a small runtime that agrees with the real built-ins on the
  inputs used: URLs of the form \<^verbatim>\<open>https://host\<close> or \<^verbatim>\<open>https://host/\<close>, one JSON text
  of a model reply, the JSON text of a budget record, ASCII lower-casing.
\<close>

definition sample_URL :: "jsstring \<Rightarrow> url option" where
  "sample_URL s =
     (let rest = drop 8 s;
          host = takeWhile (\<lambda>c. c \<noteq> 0x2F) rest;
          path = dropWhile (\<lambda>c. c \<noteq> 0x2F) rest
      in if take 8 s = js ''https://'' \<and> host \<noteq> [] \<and> \<not> list_ex is_space host
            \<and> (path = [] \<or> path = [0x2F])
         then Some \<lparr> url_protocol = js ''https:'',
                     url_origin = js ''https://'' @ host,
                     url_href = js ''https://'' @ host @ [0x2F] \<rparr>
         else None)"

definition lead_json :: jsstring where
  \<open>lead_json = js ''{"message":"Thanks","action":{"type":"create_lead","payload":{"plan":"pro"}}}''\<close>

definition lead_value :: jsval where
  "lead_value =
     JObj [(js ''message'', JStr (js ''Thanks'')),
           (js ''action'', JObj [(js ''type'', JStr (js ''create_lead'')),
                                (js ''payload'', JObj [(js ''plan'', JStr (js ''pro''))])])]"

definition sample_stringify :: "jsval \<Rightarrow> jsstring" where
  \<open>sample_stringify v =
     (case v of
        JObj [(k1, JNum (Fin a)), (k2, JNum (Fin b))] \<Rightarrow>
          js ''{"requests":'' @ decimal (nat \<lfloor>a\<rfloor>) @ js '',"tokens":'' @ decimal (nat \<lfloor>b\<rfloor>) @ js ''}''
      | _ \<Rightarrow> js ''{}'')\<close>

definition sample_platform :: platform where
  "sample_platform =
     \<lparr> Number_other = (\<lambda>s. NaN),
       String_other = (\<lambda>n. js ''NaN''),
       URL_parse = sample_URL,
       JSON_parse = (\<lambda>s. if s = lead_json then Some lead_value else None),
       JSON_stringify = sample_stringify,
       String_value = (\<lambda>v. js ''[object Object]''),
       toLowerCase = map (\<lambda>c. if 0x41 \<le> c \<and> c \<le> 0x5A then c + 0x20 else c),
       utc_ymd = (\<lambda>t. (2026, 2, 21)) \<rparr>"

text \<open>
  The bot \<^verbatim>\<open>acme\<close> as a first write of
  \<^verbatim>\<open>{botId: "acme", rateLimit: {limit: 3, windowSeconds: 60}}\<close> stores it.
\<close>

definition acme_cfg :: BotConfig where
  "acme_cfg =
     \<lparr> botId = js ''acme'', siteName = Some (js ''acme''), contactUrl = Some (js ''/contact''),
       tone = None, model = None, maxTokens = Some (Fin 512), allowedOrigins = Some [],
       botKey = None, leadMode = Some Balanced, qualifyingQuestions = None, knowledge = None,
       knowledgeUrls = Some [], ragEnabled = Some False, ragMode = None,
       ragMaxUrlsPerRequest = Some (Fin 2), ragTopKChunks = Some (Fin 4),
       ragChunkChars = Some (Fin 1200), ragCacheTtlSeconds = Some (Fin 86400),
       ragEmbeddingModel = None, maxTurns = Some (Fin 20), maxCharsPerMessage = Some (Fin 4000),
       rateLimit = Some \<lparr> limit = Some (Fin 3), windowSeconds = Some (Fin 60) \<rparr>,
       dailyBudget = None, actions = None, schemaVersion = Some (Fin 2) \<rparr>"

definition acme_body :: jsval where
  "acme_body =
     JObj [(js ''botId'', JStr (js ''acme'')),
           (js ''rateLimit'', JObj [(js ''limit'', JNum (Fin 3)), (js ''windowSeconds'', JNum (Fin 60))])]"

text \<open>The same bot locked to one site, with a daily budget, and with a restricted action policy.\<close>

definition locked_cfg :: BotConfig where
  "locked_cfg = acme_cfg \<lparr> allowedOrigins := Some [js ''https://shop.example''] \<rparr>"

definition budget_cfg :: BotConfig where
  "budget_cfg = acme_cfg \<lparr> dailyBudget := Some \<lparr> maxRequestsPerDay = Some (Fin 300),
                                                  maxTokensPerDay = Some (Fin 0) \<rparr> \<rparr>"

definition restricted_cfg :: BotConfig where
  "restricted_cfg =
     acme_cfg \<lparr> actions := Some \<lparr> actionsEnabled = Some True, webhookUrl = None,
                                   webhookAuthHeader = None, webhookSecret = None,
                                   allowedActionTypes = Some [OpenContact] \<rparr> \<rparr>"

definition env_of :: "BotConfig \<Rightarrow> env" where
  "env_of cfg = \<lparr> BOT_CONFIG = [js ''acme'' \<mapsto> cfg], KB_CACHE = Map.empty \<rparr>"

text \<open>A request with no headers at all, and one whose only header is \<^verbatim>\<open>Host\<close>.\<close>

definition hello_body :: jsval where
  "hello_body =
     JObj [(js ''botId'', JStr (js ''acme'')),
           (js ''messages'', JArr [JObj [(js ''role'', JStr (js ''user'')),
                                         (js ''content'', JStr (js ''hello''))]])]"

definition hello_request :: request where
  "hello_request = \<lparr> headers = Map.empty, json_body = hello_body \<rparr>"

definition host_request :: request where
  "host_request = \<lparr> headers = [js ''host'' \<mapsto> js ''chat.example.workers.dev''], json_body = hello_body \<rparr>"

text \<open>What the admission steps hand over for the first request, for the bot configuration \<open>cfg\<close>.\<close>

definition hello_admission :: "BotConfig \<Rightarrow> admission" where
  "hello_admission cfg =
     \<lparr> adm_cfg = cfg, adm_botId = js ''acme'',
       adm_messages = [JObj [(js ''role'', JStr (js ''user'')), (js ''content'', JStr (js ''hello''))]],
       adm_debug = False, adm_origin = [] \<rparr>"

text \<open>
  Inference services: one that answers in plain text, one that answers with the action
  envelope \<open>lead_json\<close>, one that throws an error carrying an upstream message, and one that
  throws \<^verbatim>\<open>undefined\<close>.
\<close>

definition services_with :: "nat \<Rightarrow> ai_outcome \<Rightarrow> services" where
  "services_with t out =
     \<lparr> now_rate = t, now_budget = t,
       AI_run = (\<lambda>m i n. out),
       buildRagBlock = (\<lambda>c cfg q. ([], [])),
       buildSystemPrompt = (\<lambda>cfg. js ''You are the website assistant.'') \<rparr>"

definition plain_reply :: ai_outcome where
  "plain_reply = AiReturns (Some (JObj [(js ''response'', JStr (js ''Hi there''))]))"

definition lead_reply :: ai_outcome where
  "lead_reply = AiReturns (Some (JObj [(js ''response'', JStr lead_json)]))"

definition upstream_failure :: ai_outcome where
  "upstream_failure =
     AiThrows (Some (JObj [(js ''message'', JStr (js ''5007: account 4821 is over its inference quota''))]))"

definition silent_failure :: ai_outcome where
  "silent_failure = AiThrows None"



text \<open>Three configured pages and a question that matches none of them.\<close>

definition sample_urls :: "jsstring list" where
  "sample_urls = [js ''https://shop.example/about'', js ''https://shop.example/pricing'',
                  js ''https://shop.example/team'']"






text \<open>
  The sample runtime with one more URL, \<^verbatim>\<open>file:///x\<close>, whose origin is the opaque
  \<^verbatim>\<open>null\<close> as in every runtime; and the record of \<^verbatim>\<open>acme\<close> put into the namespace by hand
  with that URL as its allowed origin, and with the origin \<^verbatim>\<open>null\<close>.
\<close>

definition file_URL :: "jsstring \<Rightarrow> url option" where
  "file_URL s =
     (if s = js ''file:///x''
      then Some \<lparr> url_protocol = js ''file:'', url_origin = js ''null'', url_href = js ''file:///x'' \<rparr>
      else sample_URL s)"

definition file_platform :: platform where
  "file_platform = sample_platform \<lparr> URL_parse := file_URL \<rparr>"



section \<open>Unfolding sets for the worked examples\<close>

lemmas value_defs = js_def trim_def is_space_def trimmed_string_def truthy_opt_def nullish_def
  getHeader_def or_else_def Let_def

lemmas number_defs = Number_str_def String_num_def is_natural_def decimal.simps digit_char_def
  is_digit_def decimal_value_def digit_val_def clampInt_def Math_trunc_def nat_of_number_def
  existing_or_def

lemmas admit_defs = admit_def getRequestOrigin_def isOriginAllowed_def getBotKeyFromReq_def
  json_def chat_err_def

lemmas serve_defs = serve_def converse_def prepare_def finish_def checkRateLimit_def
  checkDailyBudget_def rate_key_def ipFromReq_def trim_messages_def trim_turn_def
  String_of_def assemble_input_def system_message_def truncateTextToLimit_def cap_input_def
  total_chars_def rawText_of_def string_prop_def totalTokensFromModel_def or_value_def
  extractActionFromModelOutput_def safeJsonParse_def enforce_policy_def chat_ok_def
  safeMessage_def fallback_message_def cors_def estimateTokensFromText_def json_def chat_err_def
  totalTokensEstimate_def incrementDailyBudget_def putBudgetState_def getBudgetState_def budget_key_def
  utcDayKey_def padStart2_def BudgetState_value_def Number_value_def
  ai_error_detail_def
  GLOBAL_MAX_TURNS_def GLOBAL_MAX_CHARS_PER_MESSAGE_def GLOBAL_MAX_TOKENS_def
  GLOBAL_MAX_SYSTEM_CHARS_def GLOBAL_MAX_TOTAL_INPUT_CHARS_def List.map_filter_def

lemmas sample_defs = sample_platform_def services_with_def env_of_def hello_request_def
  hello_body_def acme_cfg_def

section \<open>Facts about the normalization of a configuration\<close>



lemma sanitizeOrigins_loop_length:
  "length out < mx \<Longrightarrow> length (sanitizeOrigins_loop P mx os out) \<le> mx"
proof (induction os arbitrary: out)
  case Nil
  then show ?case by simp
next
  case (Cons u us)
  show ?case
  proof (cases u)
    case (JStr u0)
    show ?thesis
    proof (cases "URL_parse P (trim u0)")
      case None
      with JStr Cons show ?thesis by (simp add: Let_def)
    next
      case (Some parsed)
      have "Suc (length out) \<ge> mx \<or> length (out @ [url_origin parsed]) < mx" by auto
      with JStr Some Cons show ?thesis by (auto simp add: Let_def)
    qed
  qed (use Cons in simp_all)
qed

lemma dedup_length: "length (dedup xs) \<le> length xs"
  by (metis dedup_def length_remdups_leq length_rev)

lemma sanitizeOrigins_length: "0 < mx \<Longrightarrow> length (sanitizeOrigins P v mx) \<le> mx"
proof -
  assume mx: "0 < mx"
  have "length (dedup (sanitizeOrigins_loop P mx os [])) \<le> mx" for os
    using dedup_length [of "sanitizeOrigins_loop P mx os []"]
          sanitizeOrigins_loop_length [of "[]" mx P os] mx by simp
  then show ?thesis
    by (simp add: sanitizeOrigins_def split: option.splits jsval.splits)
qed



lemma dedup_sanitize_length: "length (sanitizeOrigins P v 25) \<le> 25"
  by (rule sanitizeOrigins_length) simp


section \<open>The stored configuration and the global caps\<close>
























section \<open>The shape of the request pipeline\<close>

lemma json_simps [simp]:
  "status (json st b rid hs) = st"
  "body (json st b rid hs) = b"
  "requestId (json st b rid hs) = rid"
  "extra_headers (json st b rid hs) = hs"
  by (simp_all add: json_def)

lemma admit_Inl_status:
  "admit P store req rid = Inl r \<Longrightarrow> status r \<in> {400, 401, 403, 404}"
  by (auto simp: admit_def Let_def split: if_splits option.splits)

lemma admit_forbidden:
  "admit P store req rid = Inl r \<Longrightarrow> status r = 403 \<Longrightarrow> getRequestOrigin req \<noteq> []"
  by (auto simp: admit_def Let_def split: if_splits option.splits)

lemma finish_resp:
  "fst (finish P a rid cache budget inp ai) =
     json 200
       (chat_ok (adm_cfg a) (adm_debug a) ai
          (fst (extractActionFromModelOutput P (rawText_of ai)))
          (enforce_policy (adm_cfg a) (snd (extractActionFromModelOutput P (rawText_of ai)))))
       rid
       (cors (adm_origin a)
        @ [(js ''Access-Control-Allow-Headers'', js ''Content-Type, Authorization, x-bot-key''),
           (js ''Access-Control-Allow-Methods'', js ''POST, OPTIONS''),
           (js ''x-request-id'', rid)])"
  by (simp add: finish_def Let_def)

text \<open>The three ways a conversation ends.\<close>

lemma converse_cases:
  obtains
    (no_messages)
      "trim_messages P (adm_cfg a) (adm_messages a) = []"
      "converse P S a rid cache budget =
         \<lparr> resp = json 400 (chat_err (js ''BAD_REQUEST'') (JStr (js ''No valid messages.''))) rid [],
           cache_after = cache, sent = None \<rparr>"
  | (throws) cache1 model1 inp maxTokens1 e where
      "trim_messages P (adm_cfg a) (adm_messages a) \<noteq> []"
      "prepare P S (adm_cfg a) cache (trim_messages P (adm_cfg a) (adm_messages a))
         = (cache1, model1, inp, maxTokens1)"
      "AI_run S model1 inp maxTokens1 = AiThrows e"
      "converse P S a rid cache budget =
         \<lparr> resp = json 502 (chat_err (js ''AI_ERROR'') (ai_error_detail e)) rid (cors (adm_origin a)),
           cache_after = cache1, sent = Some (model1, inp, maxTokens1) \<rparr>"
  | (returns) cache1 model1 inp maxTokens1 ai where
      "trim_messages P (adm_cfg a) (adm_messages a) \<noteq> []"
      "prepare P S (adm_cfg a) cache (trim_messages P (adm_cfg a) (adm_messages a))
         = (cache1, model1, inp, maxTokens1)"
      "AI_run S model1 inp maxTokens1 = AiReturns ai"
      "converse P S a rid cache budget =
         \<lparr> resp = fst (finish P a rid cache1 budget inp ai),
           cache_after = snd (finish P a rid cache1 budget inp ai),
           sent = Some (model1, inp, maxTokens1) \<rparr>"
proof (cases "trim_messages P (adm_cfg a) (adm_messages a) = []")
  case True
  then show ?thesis by (intro no_messages) (simp_all add: converse_def)
next
  case False
  obtain cache1 model1 inp maxTokens1 where
    pr: "prepare P S (adm_cfg a) cache (trim_messages P (adm_cfg a) (adm_messages a))
         = (cache1, model1, inp, maxTokens1)"
    by (metis prod_cases4)
  show ?thesis
  proof (cases "AI_run S model1 inp maxTokens1")
    case (AiThrows e)
    show ?thesis
      by (rule throws [OF False pr AiThrows]) (simp add: converse_def False pr AiThrows)
  next
    case (AiReturns ai)
    show ?thesis
      by (rule returns [OF False pr AiReturns])
         (simp add: converse_def False pr AiReturns split: prod.splits)
  qed
qed

text \<open>The ways the admitted part of a request ends.\<close>

lemma serve_cases:
  obtains
    (rate_limited) rl where
      "checkRateLimit P (now_rate S) cache (adm_botId a) req (Some (adm_cfg a)) = (rl, cache)"
      "\<not> rl_ok rl"
      "serve P S cache req rid a =
         \<lparr> resp = json 429
                    (chat_err (js ''RATE_LIMITED'')
                       (JStr (js ''Too many requests. Limit '' @ String_num P (rl_limit rl) @ js ''/''
                              @ String_num P (rl_windowSeconds rl) @ js ''s.'')))
                    rid
                    (cors (adm_origin a) @ [(js ''Retry-After'', String_num P (rl_windowSeconds rl))]),
           cache_after = cache, sent = None \<rparr>"
  | (over_budget) rl cache1 d where
      "checkRateLimit P (now_rate S) cache (adm_botId a) req (Some (adm_cfg a)) = (rl, cache1)"
      "rl_ok rl"
      "checkDailyBudget P (now_budget S) cache1 (adm_cfg a) = BudgetExceeded d"
      "serve P S cache req rid a =
         \<lparr> resp = json 429 (chat_err (js ''BUDGET_EXCEEDED'') (JStr d)) rid
                    (cors (adm_origin a) @ [(js ''Retry-After'', js ''3600'')]),
           cache_after = cache1, sent = None \<rparr>"
  | (conversed) rl cache1 budget where
      "checkRateLimit P (now_rate S) cache (adm_botId a) req (Some (adm_cfg a)) = (rl, cache1)"
      "rl_ok rl"
      "checkDailyBudget P (now_budget S) cache1 (adm_cfg a) = BudgetOk budget"
      "serve P S cache req rid a = converse P S a rid cache1 budget"
proof -
  obtain rl cache1 where
    rl: "checkRateLimit P (now_rate S) cache (adm_botId a) req (Some (adm_cfg a)) = (rl, cache1)"
    by (cases "checkRateLimit P (now_rate S) cache (adm_botId a) req (Some (adm_cfg a))")
  show ?thesis
  proof (cases "rl_ok rl")
    case False
    from rl False have c: "cache1 = cache"
      by (auto simp: checkRateLimit_def Let_def split: if_splits)
    show ?thesis
      by (rule rate_limited [OF rl [unfolded c] False]) (simp add: serve_def rl False c)
  next
    case True
    show ?thesis
    proof (cases "checkDailyBudget P (now_budget S) cache1 (adm_cfg a)")
      case (BudgetExceeded d)
      show ?thesis
        by (rule over_budget [OF rl True BudgetExceeded]) (simp add: serve_def rl True BudgetExceeded)
    next
      case (BudgetOk budget)
      show ?thesis
        by (rule conversed [OF rl True BudgetOk]) (simp add: serve_def rl True BudgetOk)
    qed
  qed
qed

lemma converse_status:
  "status (resp (converse P S a rid cache budget)) \<in> {200, 400, 502}"
  by (cases rule: converse_cases [where P = P and S = S and a = a and rid = rid and cache = cache and budget = budget])
     (simp_all add: finish_resp)

lemma serve_status:
  "status (resp (serve P S cache req rid a)) \<in> {200, 400, 429, 502}"
proof (cases rule: serve_cases [where P = P and S = S and a = a and rid = rid and cache = cache and req = req])
  case (conversed rl cache1 budget)
  with converse_status [of P S a rid cache1 budget] show ?thesis by auto
qed simp_all

lemma handleChat_status:
  "status (resp (handleChat P S e req rid)) \<in> {200, 400, 401, 403, 404, 429, 502}"
proof (cases "admit P (BOT_CONFIG e) req rid")
  case (Inl r)
  with admit_Inl_status [OF Inl] show ?thesis by (auto simp: handleChat_def)
next
  case (Inr a)
  with serve_status [of P S "KB_CACHE e" req rid a] show ?thesis by (auto simp: handleChat_def)
qed

lemma handleChat_sent:
  assumes "sent (handleChat P S e req rid) = Some (m, inp, mt)"
  obtains a cache1 budget cache2 where
    "admit P (BOT_CONFIG e) req rid = Inr a"
    "handleChat P S e req rid = converse P S a rid cache1 budget"
    "trim_messages P (adm_cfg a) (adm_messages a) \<noteq> []"
    "prepare P S (adm_cfg a) cache1 (trim_messages P (adm_cfg a) (adm_messages a)) = (cache2, m, inp, mt)"
proof (cases "admit P (BOT_CONFIG e) req rid")
  case (Inl r)
  with assms show ?thesis by (simp add: handleChat_def)
next
  case (Inr a)
  then have h: "handleChat P S e req rid = serve P S (KB_CACHE e) req rid a"
    by (simp add: handleChat_def)
  show ?thesis
  proof (cases rule: serve_cases [where P = P and S = S and a = a and rid = rid
                                     and cache = "KB_CACHE e" and req = req])
    case (rate_limited rl)
    with assms h show ?thesis by simp
  next
    case (over_budget rl cache1 d)
    with assms h show ?thesis by simp
  next
    case (conversed rl cache1 budget)
    with h have c: "handleChat P S e req rid = converse P S a rid cache1 budget" by simp
    show ?thesis
    proof (cases rule: converse_cases [where P = P and S = S and a = a and rid = rid
                                          and cache = cache1 and budget = budget])
      case no_messages
      with assms c show ?thesis by simp
    next
      case (throws cache2 model1 inp1 maxTokens1 e1)
      with assms c have "(model1, inp1, maxTokens1) = (m, inp, mt)" by simp
      with throws Inr c that show ?thesis by blast
    next
      case (returns cache2 model1 inp1 maxTokens1 ai)
      with assms c have "(model1, inp1, maxTokens1) = (m, inp, mt)" by simp
      with returns Inr c that show ?thesis by blast
    qed
  qed
qed

lemma prepare_input:
  "prepare P S cfg cache trimmed = (cache1, m, inp, mt)
   \<Longrightarrow> inp = assemble_input S cfg
               (fst (buildRagBlock S cache cfg
                  (case filter (\<lambda>m. role m = User) (rev trimmed) of m # _ \<Rightarrow> content m | [] \<Rightarrow> [])))
               trimmed"
  by (auto simp: prepare_def Let_def)

lemma fallback_message_nonempty: "fallback_message \<noteq> []"
  by (simp add: fallback_message_def js_def)

lemma safeMessage_nonempty: "safeMessage m \<noteq> []"
  by (simp add: safeMessage_def or_else_def fallback_message_nonempty)

lemma handleChat_200:
  assumes "status (resp (handleChat P S e req rid)) = 200"
  obtains a cache1 budget inp ai where
    "admit P (BOT_CONFIG e) req rid = Inr a"
    "resp (handleChat P S e req rid) = fst (finish P a rid cache1 budget inp ai)"
proof (cases "admit P (BOT_CONFIG e) req rid")
  case (Inl r)
  with admit_Inl_status [OF Inl] assms show ?thesis by (auto simp: handleChat_def)
next
  case (Inr a)
  then have h: "handleChat P S e req rid = serve P S (KB_CACHE e) req rid a"
    by (simp add: handleChat_def)
  show ?thesis
  proof (cases rule: serve_cases [where P = P and S = S and a = a and rid = rid
                                     and cache = "KB_CACHE e" and req = req])
    case (rate_limited rl)
    with assms h show ?thesis by simp
  next
    case (over_budget rl cache1 d)
    with assms h show ?thesis by simp
  next
    case (conversed rl cache1 budget)
    with h have c: "handleChat P S e req rid = converse P S a rid cache1 budget" by simp
    show ?thesis
    proof (cases rule: converse_cases [where P = P and S = S and a = a and rid = rid
                                          and cache = cache1 and budget = budget])
      case no_messages
      with assms c show ?thesis by simp
    next
      case (throws cache2 model1 inp1 maxTokens1 e1)
      with assms c show ?thesis by simp
    next
      case (returns cache2 model1 inp1 maxTokens1 ai)
      with c Inr that show ?thesis by simp
    qed
  qed
qed

lemma converse_throws:
  assumes "trim_messages P (adm_cfg a) (adm_messages a) \<noteq> []"
    and "prepare P S (adm_cfg a) cache (trim_messages P (adm_cfg a) (adm_messages a)) = (cache1, m, inp, mt)"
    and "AI_run S m inp mt = AiThrows e"
  shows "converse P S a rid cache budget =
           \<lparr> resp = json 502 (chat_err (js ''AI_ERROR'') (ai_error_detail e)) rid (cors (adm_origin a)),
             cache_after = cache1, sent = Some (m, inp, mt) \<rparr>"
  using assms by (simp add: converse_def)

lemma converse_returns:
  assumes "trim_messages P (adm_cfg a) (adm_messages a) \<noteq> []"
    and "prepare P S (adm_cfg a) cache (trim_messages P (adm_cfg a) (adm_messages a)) = (cache1, m, inp, mt)"
    and "AI_run S m inp mt = AiReturns ai"
  shows "converse P S a rid cache budget =
           \<lparr> resp = fst (finish P a rid cache1 budget inp ai),
             cache_after = snd (finish P a rid cache1 budget inp ai),
             sent = Some (m, inp, mt) \<rparr>"
  using assms by (simp add: converse_def split: prod.splits)

section \<open>Worked examples\<close>

lemma admit_hello_acme:
  "admit sample_platform (BOT_CONFIG (env_of acme_cfg)) hello_request rid = Inr (hello_admission acme_cfg)"
  by (simp add: admit_defs sample_defs hello_admission_def value_defs)

lemma admit_hello_locked:
  "admit sample_platform (BOT_CONFIG (env_of locked_cfg)) hello_request rid = Inr (hello_admission locked_cfg)"
  by (simp add: admit_defs sample_defs locked_cfg_def hello_admission_def value_defs)

lemma hello_run:
  "handleChat sample_platform (services_with 120000 plain_reply) (env_of acme_cfg) hello_request (js ''r1'')
   = \<lparr> resp = json 200
              (Ok \<lparr> message = js ''Hi there'', reply = js ''Hi there'', raw = None, action = None \<rparr>)
              (js ''r1'')
              [(js ''Access-Control-Allow-Headers'', js ''Content-Type, Authorization, x-bot-key''),
               (js ''Access-Control-Allow-Methods'', js ''POST, OPTIONS''),
               (js ''x-request-id'', js ''r1'')],
         cache_after = [js ''rl:acme:unknown:2'' \<mapsto> js ''1''],
         sent = Some (js ''@cf/meta/llama-3-8b-instruct'',
                      [\<lparr> role = System, content = js ''You are the website assistant.'' \<rparr>,
                       \<lparr> role = User, content = js ''hello'' \<rparr>], Fin 512) \<rparr>"
  unfolding handleChat_def admit_hello_acme
  by (simp add: serve_defs number_defs sample_defs plain_reply_def hello_admission_def value_defs)

lemma hello_run_with:
  "out = AiThrows x \<or> out = AiReturns y \<Longrightarrow>
   sent (handleChat sample_platform (services_with 120000 out) (env_of acme_cfg) hello_request rid)
   = Some (js ''@cf/meta/llama-3-8b-instruct'',
           [\<lparr> role = System, content = js ''You are the website assistant.'' \<rparr>,
            \<lparr> role = User, content = js ''hello'' \<rparr>], Fin 512)"
  unfolding handleChat_def admit_hello_acme
  by (auto simp add: serve_defs number_defs sample_defs hello_admission_def value_defs)

section \<open>URL selection ranks and never filters\<close>

lemma scored_snd:
  "s \<in> set (map (\<lambda>u. (u, f u)) urls) \<Longrightarrow> snd s = f (fst s)"
  by auto

lemma filter_scored:
  "map fst (filter (\<lambda>s. - int (snd s) = - int k) (map (\<lambda>u. (u, f u)) urls)) = filter (\<lambda>u. f u = k) urls"
  by (induction urls) auto

text \<open>
  C9. For a non-empty URL list and a cap above zero the simple-mode selection returns
  exactly min(cap, number of URLs) candidates, whatever the scores are (also when all are
  zero), and for every score the selected URLs of that score are an initial segment of the
  configured URLs of that score: equal scores keep the configured order.
\<close>

theorem selectRelevantUrls_count_and_order:
  assumes "urls \<noteq> []" and "0 < mx"
  shows "length (selectRelevantUrls P question urls mx) = min (nat mx) (length urls)
       \<and> prefix (filter (\<lambda>u. url_score P (toLowerCase P question) u = k)
                    (selectRelevantUrls P question urls mx))
                (filter (\<lambda>u. url_score P (toLowerCase P question) u = k) urls)"
proof -
  let ?q = "toLowerCase P question"
  let ?f = "\<lambda>s::jsstring \<times> nat. - int (snd s)"
  let ?scored = "map (\<lambda>u. (u, url_score P ?q u)) urls"
  let ?sorted = "sort_key ?f ?scored"
  have sel: "selectRelevantUrls P question urls mx = map fst (take (nat mx) ?sorted)"
    using assms by (simp add: selectRelevantUrls_def Let_def)
  have len: "length (selectRelevantUrls P question urls mx) = min (nat mx) (length urls)"
    unfolding sel by simp
  have snd_eq: "snd s = url_score P ?q (fst s)" if "s \<in> set (take (nat mx) ?sorted)" for s
  proof -
    from that have "s \<in> set ?sorted" by (rule in_set_takeD)
    then have "s \<in> set ?scored" by simp
    then show ?thesis by (rule scored_snd)
  qed
  have "filter (\<lambda>u. url_score P ?q u = k) (map fst (take (nat mx) ?sorted))
        = map fst (filter (\<lambda>s. url_score P ?q (fst s) = k) (take (nat mx) ?sorted))"
    by (simp add: filter_map comp_def)
  also have "\<dots> = map fst (filter (\<lambda>s. ?f s = - int k) (take (nat mx) ?sorted))"
  proof -
    have "filter (\<lambda>s. url_score P ?q (fst s) = k) (take (nat mx) ?sorted)
          = filter (\<lambda>s. ?f s = - int k) (take (nat mx) ?sorted)"
    proof (rule filter_cong [OF refl])
      fix s assume "s \<in> set (take (nat mx) ?sorted)"
      from snd_eq [OF this] show "(url_score P ?q (fst s) = k) = (?f s = - int k)" by simp
    qed
    then show ?thesis by simp
  qed
  finally have l: "filter (\<lambda>u. url_score P ?q u = k) (selectRelevantUrls P question urls mx)
        = map fst (filter (\<lambda>s. ?f s = - int k) (take (nat mx) ?sorted))"
    unfolding sel .
  have "prefix (filter (\<lambda>s. ?f s = - int k) (take (nat mx) ?sorted))
               (filter (\<lambda>s. ?f s = - int k) ?sorted)"
    by (intro filter_mono_prefix take_is_prefix)
  also have "filter (\<lambda>s. ?f s = - int k) ?sorted = filter (\<lambda>s. ?f s = - int k) ?scored"
    by (rule sort_key_stable)
  finally have "prefix (map fst (filter (\<lambda>s. ?f s = - int k) (take (nat mx) ?sorted)))
                       (map fst (filter (\<lambda>s. ?f s = - int k) ?scored))"
    by (rule map_mono_prefix)
  then have "prefix (filter (\<lambda>u. url_score P ?q u = k) (selectRelevantUrls P question urls mx))
                    (filter (\<lambda>u. url_score P ?q u = k) urls)"
    unfolding l filter_scored .
  with len show ?thesis by simp
qed

text \<open>
  C9, an instance: three pages, a cap of two, and a question none of them matches.
\<close>

theorem selectRelevantUrls_count_and_order_witness:
  "sample_urls \<noteq> [] \<and> (0::int) < 2
   \<and> length (selectRelevantUrls sample_platform (js ''Hi!'') sample_urls 2) = 2
   \<and> prefix (filter (\<lambda>u. url_score sample_platform (toLowerCase sample_platform (js ''Hi!'')) u = 0)
                (selectRelevantUrls sample_platform (js ''Hi!'') sample_urls 2))
             (filter (\<lambda>u. url_score sample_platform (toLowerCase sample_platform (js ''Hi!'')) u = 0)
                sample_urls)"
proof -
  have u: "sample_urls \<noteq> []" by (simp add: sample_urls_def)
  have m: "(0::int) < 2" by simp
  from selectRelevantUrls_count_and_order [OF u m, of sample_platform "js ''Hi!''" 0] u
  show ?thesis by (simp add: sample_urls_def)
qed

section \<open>The prompt size ceiling\<close>

lemma total_chars_Cons: "total_chars (m # ms) = length (content m) + total_chars ms"
  by (simp add: total_chars_def)

lemma total_chars_append: "total_chars (xs @ ys) = total_chars xs + total_chars ys"
  by (simp add: total_chars_def)

lemma total_chars_drop_mono: "i \<le> j \<Longrightarrow> total_chars (drop j xs) \<le> total_chars (drop i xs)"
proof -
  assume "i \<le> j"
  then have "drop i xs = take (j - i) (drop i xs) @ drop j xs"
    by (metis append_take_drop_id drop_drop le_add_diff_inverse2)
  then have "total_chars (drop i xs) = total_chars (take (j - i) (drop i xs)) + total_chars (drop j xs)"
    by (metis total_chars_append)
  then show ?thesis by simp
qed

lemma keep_loop_bound:
  "total_chars (sys # kept) \<le> GLOBAL_MAX_TOTAL_INPUT_CHARS
   \<Longrightarrow> total_chars (keep_loop sys rest kept) \<le> GLOBAL_MAX_TOTAL_INPUT_CHARS"
  by (induction rest arbitrary: kept) auto

lemma keep_loop_suffix:
  "\<exists>k \<le> length rest.
      keep_loop sys rest kept = sys # drop k (rev rest @ kept)
    \<and> (\<forall>j < k. GLOBAL_MAX_TOTAL_INPUT_CHARS < total_chars (sys # drop j (rev rest @ kept)))"
proof (induction rest arbitrary: kept)
  case Nil
  show ?case by simp
next
  case (Cons m rest)
  show ?case
  proof (cases "total_chars (sys # m # kept) > GLOBAL_MAX_TOTAL_INPUT_CHARS")
    case True
    have "GLOBAL_MAX_TOTAL_INPUT_CHARS < total_chars (sys # drop j (rev (m # rest) @ kept))"
      if "j < length (m # rest)" for j
    proof -
      have "drop (length rest) (rev (m # rest) @ kept) = m # kept" by simp
      moreover have "total_chars (drop (length rest) (rev (m # rest) @ kept))
                     \<le> total_chars (drop j (rev (m # rest) @ kept))"
        using that by (intro total_chars_drop_mono) simp
      ultimately show ?thesis using True by (simp add: total_chars_Cons)
    qed
    moreover have "keep_loop sys (m # rest) kept = sys # drop (length (m # rest)) (rev (m # rest) @ kept)"
      using True by simp
    ultimately show ?thesis by blast
  next
    case False
    from Cons.IH [of "m # kept"] obtain k where k: "k \<le> length rest"
      "keep_loop sys rest (m # kept) = sys # drop k (rev rest @ m # kept)"
      "\<forall>j < k. GLOBAL_MAX_TOTAL_INPUT_CHARS < total_chars (sys # drop j (rev rest @ m # kept))"
      by blast
    have "keep_loop sys (m # rest) kept = sys # drop k (rev (m # rest) @ kept)"
      using False k(2) by simp
    moreover have "\<forall>j < k. GLOBAL_MAX_TOTAL_INPUT_CHARS < total_chars (sys # drop j (rev (m # rest) @ kept))"
      using k(3) by simp
    moreover have "k \<le> length (m # rest)" using k(1) by simp
    ultimately show ?thesis by blast
  qed
qed

lemma truncateTextToLimit_length: "0 < n \<Longrightarrow> length (truncateTextToLimit s n) \<le> n"
  by (auto simp: truncateTextToLimit_def)

lemma truncateTextToLimit_head:
  "take (n - 1) (truncateTextToLimit s n) = take (n - 1) s"
  by (auto simp: truncateTextToLimit_def)

lemma system_message_props:
  "role (system_message S cfg rag) = System"
  "length (content (system_message S cfg rag)) \<le> GLOBAL_MAX_SYSTEM_CHARS"
  by (simp_all add: system_message_def Let_def truncateTextToLimit_length GLOBAL_MAX_SYSTEM_CHARS_def)

lemma cap_input_props:
  assumes "length (content sys) \<le> GLOBAL_MAX_TOTAL_INPUT_CHARS"
  shows "total_chars (cap_input (sys # turns)) \<le> GLOBAL_MAX_TOTAL_INPUT_CHARS"
    and "\<exists>k \<le> length turns. cap_input (sys # turns) = sys # drop k turns
          \<and> (\<forall>j < k. GLOBAL_MAX_TOTAL_INPUT_CHARS < total_chars (sys # drop j turns))"
proof -
  show "total_chars (cap_input (sys # turns)) \<le> GLOBAL_MAX_TOTAL_INPUT_CHARS"
  proof (cases "total_chars (sys # turns) > GLOBAL_MAX_TOTAL_INPUT_CHARS")
    case True
    then have "cap_input (sys # turns) = keep_loop sys (rev turns) []" by (simp add: cap_input_def)
    moreover have "total_chars (keep_loop sys (rev turns) []) \<le> GLOBAL_MAX_TOTAL_INPUT_CHARS"
      using assms by (intro keep_loop_bound) (simp add: total_chars_def)
    ultimately show ?thesis by simp
  next
    case False
    then show ?thesis by (simp add: cap_input_def)
  qed
  show "\<exists>k \<le> length turns. cap_input (sys # turns) = sys # drop k turns
          \<and> (\<forall>j < k. GLOBAL_MAX_TOTAL_INPUT_CHARS < total_chars (sys # drop j turns))"
  proof (cases "total_chars (sys # turns) > GLOBAL_MAX_TOTAL_INPUT_CHARS")
    case True
    then have "cap_input (sys # turns) = keep_loop sys (rev turns) []" by (simp add: cap_input_def)
    with keep_loop_suffix [of "rev turns" sys "[]"] show ?thesis by simp
  next
    case False
    then have "cap_input (sys # turns) = sys # drop 0 turns" by (simp add: cap_input_def)
    then show ?thesis by blast
  qed
qed

text \<open>
  C2. The message list sent to the inference service never has more than 75000 characters
  in total. Its first element is the system message, whose content is the system text cut
  to the separate ceiling of 30000 characters, and the turns after it are the trimmed turns
  with the oldest dropped: exactly as many as needed, since dropping fewer would exceed
  the ceiling.
\<close>

theorem inference_input_within_total_ceiling:
  assumes "sent (handleChat P S e req rid) = Some (m, inp, mt)"
  shows "total_chars inp \<le> 75000
       \<and> (\<exists>a rag k. admit P (BOT_CONFIG e) req rid = Inr a
             \<and> inp = system_message S (adm_cfg a) rag
                       # drop k (trim_messages P (adm_cfg a) (adm_messages a))
             \<and> length (content (system_message S (adm_cfg a) rag)) \<le> 30000
             \<and> (\<forall>j < k. 75000 < total_chars (system_message S (adm_cfg a) rag
                                    # drop j (trim_messages P (adm_cfg a) (adm_messages a)))))"
proof -
  from assms obtain a cache1 budget cache2 where
    a: "admit P (BOT_CONFIG e) req rid = Inr a"
    and pr: "prepare P S (adm_cfg a) cache1 (trim_messages P (adm_cfg a) (adm_messages a))
             = (cache2, m, inp, mt)"
    by (rule handleChat_sent)
  let ?turns = "trim_messages P (adm_cfg a) (adm_messages a)"
  from prepare_input [OF pr] obtain rag where
    inp: "inp = cap_input (system_message S (adm_cfg a) rag # ?turns)"
    by (auto simp: assemble_input_def)
  let ?sys = "system_message S (adm_cfg a) rag"
  have sys: "length (content ?sys) \<le> 30000"
    using system_message_props(2) [of S "adm_cfg a" rag] by (simp add: GLOBAL_MAX_SYSTEM_CHARS_def)
  then have le: "length (content ?sys) \<le> GLOBAL_MAX_TOTAL_INPUT_CHARS"
    by (simp add: GLOBAL_MAX_TOTAL_INPUT_CHARS_def)
  from cap_input_props(1) [OF le, of ?turns] inp
  have 1: "total_chars inp \<le> 75000" by (simp add: GLOBAL_MAX_TOTAL_INPUT_CHARS_def)
  from cap_input_props(2) [OF le, of ?turns] inp obtain k where
    "inp = ?sys # drop k ?turns"
    "\<forall>j < k. 75000 < total_chars (?sys # drop j ?turns)"
    by (auto simp: GLOBAL_MAX_TOTAL_INPUT_CHARS_def)
  with a sys 1 show ?thesis by blast
qed

text \<open>C2, an instance: the first request of a conversation reaches the model and is within the ceiling.\<close>

theorem inference_input_within_total_ceiling_witness:
  "sent (handleChat sample_platform (services_with 120000 plain_reply) (env_of acme_cfg)
           hello_request (js ''r1''))
     = Some (js ''@cf/meta/llama-3-8b-instruct'',
             [\<lparr> role = System, content = js ''You are the website assistant.'' \<rparr>,
              \<lparr> role = User, content = js ''hello'' \<rparr>], Fin 512)
   \<and> total_chars [\<lparr> role = System, content = js ''You are the website assistant.'' \<rparr>,
                   \<lparr> role = User, content = js ''hello'' \<rparr>] \<le> 75000"
proof -
  have s: "sent (handleChat sample_platform (services_with 120000 plain_reply) (env_of acme_cfg)
                   hello_request (js ''r1''))
           = Some (js ''@cf/meta/llama-3-8b-instruct'',
                   [\<lparr> role = System, content = js ''You are the website assistant.'' \<rparr>,
                    \<lparr> role = User, content = js ''hello'' \<rparr>], Fin 512)"
    by (simp add: hello_run)
  from inference_input_within_total_ceiling [OF s] s show ?thesis by blast
qed

section \<open>The reply of a successful chat\<close>

text \<open>
  C10. The body of every 200 response of the chat endpoint carries \<open>reply\<close> equal to
  \<open>message\<close>, and both are non-empty.
\<close>

theorem ok_reply_equals_message:
  assumes "status (resp (handleChat P S e req rid)) = 200"
  shows "\<exists>ok. body (resp (handleChat P S e req rid)) = Ok ok
             \<and> reply ok = message ok \<and> message ok \<noteq> []"
proof -
  from assms obtain a cache1 budget inp ai where
    "resp (handleChat P S e req rid) = fst (finish P a rid cache1 budget inp ai)"
    by (rule handleChat_200)
  then show ?thesis
    by (simp add: finish_resp chat_ok_def safeMessage_nonempty)
qed

text \<open>C10, an instance: the first request of a conversation, answered in plain text.\<close>

theorem ok_reply_equals_message_witness:
  "status (resp (handleChat sample_platform (services_with 120000 plain_reply) (env_of acme_cfg)
                   hello_request (js ''r1''))) = 200
   \<and> (\<exists>ok. body (resp (handleChat sample_platform (services_with 120000 plain_reply) (env_of acme_cfg)
                           hello_request (js ''r1''))) = Ok ok
          \<and> reply ok = message ok \<and> message ok \<noteq> [])"
proof -
  have s: "status (resp (handleChat sample_platform (services_with 120000 plain_reply) (env_of acme_cfg)
                           hello_request (js ''r1''))) = 200"
    by (simp add: hello_run)
  from ok_reply_equals_message [OF s] s show ?thesis by blast
qed

section \<open>Requests without an Origin header\<close>

lemma host_origin:
  "getRequestOrigin host_request = js ''https://chat.example.workers.dev''"
  by (simp add: getRequestOrigin_def host_request_def value_defs)

lemma host_forbidden:
  "admit sample_platform (BOT_CONFIG (env_of locked_cfg)) host_request rid
   = Inl (json 403 (chat_err (js ''FORBIDDEN_ORIGIN'') (JStr (js ''Origin not allowed.''))) rid
            [(js ''Access-Control-Allow-Origin'', js ''null''), (js ''Vary'', js ''Origin'')])"
proof -
  have u: "URL_parse sample_platform (js ''https://chat.example.workers.dev'')
           = Some \<lparr> url_protocol = js ''https:'', url_origin = js ''https://chat.example.workers.dev'',
                    url_href = js ''https://chat.example.workers.dev/'' \<rparr>"
    by (simp add: sample_platform_def sample_URL_def js_def is_space_def Let_def)
  have o: "\<not> isOriginAllowed sample_platform (js ''https://chat.example.workers.dev'')
             (Some [js ''https://shop.example''])"
    unfolding isOriginAllowed_def u by (simp add: js_def)
  have a: "allowedOrigins locked_cfg = Some [js ''https://shop.example'']" "botKey locked_cfg = None"
    by (simp_all add: locked_cfg_def acme_cfg_def)
  have b: "BOT_CONFIG (env_of locked_cfg) (js ''acme'') = Some locked_cfg"
    by (simp add: env_of_def)
  have t: "trimmed_string (getprop (Some hello_body) (js ''botId'')) = js ''acme''"
    "getprop (Some hello_body) (js ''messages'')
       = Some (JArr [JObj [(js ''role'', JStr (js ''user'')), (js ''content'', JStr (js ''hello''))]])"
    "truthy hello_body" "is_object hello_body"
    by (simp_all add: hello_body_def value_defs)
  have j: "json_body host_request = hello_body"
    by (simp add: host_request_def)
  have n: "js ''acme'' \<noteq> []" "js ''https://chat.example.workers.dev'' \<noteq> []"
    by (simp_all add: js_def)
  show ?thesis
    unfolding admit_def
    by (simp add: host_origin o a b t j n Let_def)
qed

text \<open>
  C1 fails as stated: a request that carries no Origin header but a Host header (every
  HTTP/1.1 request does) gets the origin \<^verbatim>\<open>https://<host>\<close> from \<^verbatim>\<open>getRequestOrigin\<close>,
  and a bot with a non-empty allow-list that does not contain it answers 403
  \<^verbatim>\<open>FORBIDDEN_ORIGIN\<close>.
\<close>

theorem absent_origin_still_checked:
  "headers host_request (js ''origin'') = None
   \<and> allowedOrigins locked_cfg = Some [js ''https://shop.example'']
   \<and> resp (handleChat sample_platform (services_with 120000 plain_reply) (env_of locked_cfg)
              host_request (js ''r1''))
     = json 403 (chat_err (js ''FORBIDDEN_ORIGIN'') (JStr (js ''Origin not allowed.''))) (js ''r1'')
         [(js ''Access-Control-Allow-Origin'', js ''null''), (js ''Vary'', js ''Origin'')]"
  by (simp add: handleChat_def host_forbidden)
     (simp add: host_request_def locked_cfg_def acme_cfg_def js_def)

text \<open>What decides the 403, and what the request is checked with.\<close>

lemma admit_403:
  assumes "admit P store req rid = Inl r" and "status r = 403"
  shows "getRequestOrigin req \<noteq> []
         \<and> (\<exists>cfg. store (trimmed_string (getprop (Some (json_body req)) (js ''botId''))) = Some cfg
                  \<and> \<not> isOriginAllowed P (getRequestOrigin req) (allowedOrigins cfg))"
  using assms by (auto simp: admit_def Let_def split: if_splits option.splits)

lemma not_allowed_has_list:
  assumes "\<not> isOriginAllowed P origin1 allowed" and "origin1 \<noteq> []"
  shows "\<exists>os. allowed = Some os \<and> os \<noteq> []"
  using assms by (cases allowed) (auto simp: isOriginAllowed_def)

lemma admit_blocks:
  assumes "store (trimmed_string (getprop (Some (json_body req)) (js ''botId''))) = Some cfg"
    and "getRequestOrigin req \<noteq> []"
    and "\<not> isOriginAllowed P (getRequestOrigin req) (allowedOrigins cfg)"
  shows "\<exists>r. admit P store req rid = Inl r
             \<and> (status r \<in> {400, 401}
                  \<or> r = json 403 (chat_err (js ''FORBIDDEN_ORIGIN'') (JStr (js ''Origin not allowed.''))) rid
                            [(js ''Access-Control-Allow-Origin'', js ''null''), (js ''Vary'', js ''Origin'')])"
  using assms by (auto simp: admit_def Let_def)

text \<open>Writing the derived origin into the Origin header changes nothing that the handler reads.\<close>

lemma getHeader_update:
  "getHeader (req\<lparr>headers := (headers req)(k \<mapsto> v)\<rparr>) n = (if n = k then v else getHeader req n)"
  by (simp add: getHeader_def)

lemma getRequestOrigin_update:
  "getRequestOrigin (req\<lparr>headers := (headers req)(js ''origin'' \<mapsto> getRequestOrigin req)\<rparr>)
   = getRequestOrigin req"
proof (cases "getRequestOrigin req = []")
  case False
  then show ?thesis
    by (simp add: getRequestOrigin_def [of "req\<lparr>headers := _\<rparr>"] getHeader_update)
next
  case True
  have names: "js ''x-forwarded-proto'' \<noteq> js ''origin''" "js ''x-forwarded-protocol'' \<noteq> js ''origin''"
    "js ''x-forwarded-host'' \<noteq> js ''origin''" "js ''host'' \<noteq> js ''origin''"
    by (simp_all add: js_def)
  from True have "or_else (getHeader req (js ''x-forwarded-host'')) (getHeader req (js ''host'')) = []"
    by (auto simp: getRequestOrigin_def Let_def split: if_splits)
  with True show ?thesis
    by (simp add: getRequestOrigin_def [of "req\<lparr>headers := _\<rparr>"] getHeader_update names Let_def)
qed

lemma admit_update:
  "admit P store (req\<lparr>headers := (headers req)(js ''origin'' \<mapsto> getRequestOrigin req)\<rparr>) rid
   = admit P store req rid"
proof -
  have "js ''x-bot-key'' \<noteq> js ''origin''" by (simp add: js_def)
  then have g: "getBotKeyFromReq (req\<lparr>headers := (headers req)(js ''origin'' \<mapsto> getRequestOrigin req)\<rparr>) b
             = getBotKeyFromReq req b" for b
    by (simp add: getBotKeyFromReq_def getHeader_update)
  show ?thesis
    unfolding admit_def getRequestOrigin_update g by simp
qed

lemma serve_update:
  "serve P S cache (req\<lparr>headers := (headers req)(js ''origin'' \<mapsto> getRequestOrigin req)\<rparr>) rid a
   = serve P S cache req rid a"
proof -
  have "js ''cf-connecting-ip'' \<noteq> js ''origin''" "js ''x-forwarded-for'' \<noteq> js ''origin''"
    by (simp_all add: js_def)
  then have "ipFromReq (req\<lparr>headers := (headers req)(js ''origin'' \<mapsto> getRequestOrigin req)\<rparr>)
             = ipFromReq req"
    by (simp add: ipFromReq_def getHeader_update)
  then have g: "checkRateLimit P t cache bid (req\<lparr>headers := (headers req)(js ''origin'' \<mapsto> getRequestOrigin req)\<rparr>) cfg
             = checkRateLimit P t cache bid req cfg" for t bid cfg
    by (simp add: checkRateLimit_def)
  show ?thesis unfolding serve_def g ..
qed

text \<open>
  C1, amended. The origin that is checked is the Origin header when the request has one,
  and otherwise the origin \<^verbatim>\<open><proto>://<host>\<close> built from \<^verbatim>\<open>X-Forwarded-Proto\<close> (or
  \<^verbatim>\<open>X-Forwarded-Protocol\<close>, else \<^verbatim>\<open>https\<close>) and \<^verbatim>\<open>X-Forwarded-Host\<close> (else \<^verbatim>\<open>Host\<close>);
  the request is handled exactly as if it carried that origin in its Origin header. It
  is answered 403 only if there is such an origin, the bot has a non-empty allow-list and
  the origin is not allowed by it; and whenever there is such an origin and the bot's
  allow-list does not allow it, the answer is the 403 \<^verbatim>\<open>FORBIDDEN_ORIGIN\<close>, unless the
  request was already rejected with 400 or 401. So the check is skipped exactly for the
  requests that carry neither an Origin nor a forwarded or plain Host header, and for the
  bots without an allow-list.
\<close>

theorem derived_origin_is_checked_like_origin_header:
  "(status (resp (handleChat P S e req rid)) = 403 \<longrightarrow>
      getRequestOrigin req \<noteq> []
      \<and> (\<exists>cfg os. BOT_CONFIG e (trimmed_string (getprop (Some (json_body req)) (js ''botId''))) = Some cfg
             \<and> allowedOrigins cfg = Some os \<and> os \<noteq> []
             \<and> \<not> isOriginAllowed P (getRequestOrigin req) (Some os)))
   \<and> (BOT_CONFIG e (trimmed_string (getprop (Some (json_body req)) (js ''botId''))) = Some cfg
        \<and> getRequestOrigin req \<noteq> []
        \<and> \<not> isOriginAllowed P (getRequestOrigin req) (allowedOrigins cfg) \<longrightarrow>
      status (resp (handleChat P S e req rid)) \<in> {400, 401}
      \<or> resp (handleChat P S e req rid)
          = json 403 (chat_err (js ''FORBIDDEN_ORIGIN'') (JStr (js ''Origin not allowed.''))) rid
              [(js ''Access-Control-Allow-Origin'', js ''null''), (js ''Vary'', js ''Origin'')])
   \<and> handleChat P S e (req\<lparr>headers := (headers req)(js ''origin'' \<mapsto> getRequestOrigin req)\<rparr>) rid
       = handleChat P S e req rid
   \<and> getRequestOrigin req
       = (if getHeader req (js ''origin'') \<noteq> [] then getHeader req (js ''origin'')
          else if getHeader req (js ''x-forwarded-host'') = [] \<and> getHeader req (js ''host'') = [] then []
          else or_else (getHeader req (js ''x-forwarded-proto''))
                 (or_else (getHeader req (js ''x-forwarded-protocol'')) (js ''https''))
               @ js ''://''
               @ or_else (getHeader req (js ''x-forwarded-host'')) (getHeader req (js ''host'')))"
proof (intro conjI impI)
  assume s: "status (resp (handleChat P S e req rid)) = 403"
  obtain r where r: "admit P (BOT_CONFIG e) req rid = Inl r" "status r = 403"
  proof (cases "admit P (BOT_CONFIG e) req rid")
    case (Inl r)
    with s that show ?thesis by (simp add: handleChat_def)
  next
    case (Inr a)
    with serve_status [of P S "KB_CACHE e" req rid a] s show ?thesis
      by (auto simp: handleChat_def)
  qed
  from admit_403 [OF r] obtain c where o: "getRequestOrigin req \<noteq> []"
    and c: "BOT_CONFIG e (trimmed_string (getprop (Some (json_body req)) (js ''botId''))) = Some c"
      "\<not> isOriginAllowed P (getRequestOrigin req) (allowedOrigins c)" by blast
  from o show "getRequestOrigin req \<noteq> []" .
  from not_allowed_has_list [OF c(2) o] c
  show "\<exists>cfg os. BOT_CONFIG e (trimmed_string (getprop (Some (json_body req)) (js ''botId''))) = Some cfg
             \<and> allowedOrigins cfg = Some os \<and> os \<noteq> []
             \<and> \<not> isOriginAllowed P (getRequestOrigin req) (Some os)"
    by auto
next
  assume "BOT_CONFIG e (trimmed_string (getprop (Some (json_body req)) (js ''botId''))) = Some cfg
        \<and> getRequestOrigin req \<noteq> []
        \<and> \<not> isOriginAllowed P (getRequestOrigin req) (allowedOrigins cfg)"
  then obtain r where "admit P (BOT_CONFIG e) req rid = Inl r"
    "status r \<in> {400, 401}
     \<or> r = json 403 (chat_err (js ''FORBIDDEN_ORIGIN'') (JStr (js ''Origin not allowed.''))) rid
               [(js ''Access-Control-Allow-Origin'', js ''null''), (js ''Vary'', js ''Origin'')]"
    using admit_blocks [of "BOT_CONFIG e" req cfg P rid] by blast
  then show "status (resp (handleChat P S e req rid)) \<in> {400, 401}
      \<or> resp (handleChat P S e req rid)
          = json 403 (chat_err (js ''FORBIDDEN_ORIGIN'') (JStr (js ''Origin not allowed.''))) rid
              [(js ''Access-Control-Allow-Origin'', js ''null''), (js ''Vary'', js ''Origin'')]"
    by (auto simp: handleChat_def)
next
  show "handleChat P S e (req\<lparr>headers := (headers req)(js ''origin'' \<mapsto> getRequestOrigin req)\<rparr>) rid
       = handleChat P S e req rid"
    unfolding handleChat_def admit_update serve_update ..
next
  show "getRequestOrigin req
       = (if getHeader req (js ''origin'') \<noteq> [] then getHeader req (js ''origin'')
          else if getHeader req (js ''x-forwarded-host'') = [] \<and> getHeader req (js ''host'') = [] then []
          else or_else (getHeader req (js ''x-forwarded-proto''))
                 (or_else (getHeader req (js ''x-forwarded-protocol'')) (js ''https''))
               @ js ''://''
               @ or_else (getHeader req (js ''x-forwarded-host'')) (getHeader req (js ''host'')))"
    by (simp add: getRequestOrigin_def or_else_def Let_def)
qed

text \<open>
  C1 amended, an instance: the request whose only header is \<^verbatim>\<open>Host\<close>, to the bot locked
  to one site, is checked with the origin \<^verbatim>\<open>https://chat.example.workers.dev\<close>, is
  refused, and is answered as the same request with that Origin header is.
\<close>

theorem derived_origin_is_checked_like_origin_header_witness:
  "getHeader host_request (js ''origin'') = []
   \<and> getRequestOrigin host_request = js ''https://'' @ js ''chat.example.workers.dev''
   \<and> BOT_CONFIG (env_of locked_cfg) (js ''acme'') = Some locked_cfg
   \<and> allowedOrigins locked_cfg = Some [js ''https://shop.example'']
   \<and> \<not> isOriginAllowed sample_platform (getRequestOrigin host_request) (allowedOrigins locked_cfg)
   \<and> status (resp (handleChat sample_platform (services_with 120000 plain_reply) (env_of locked_cfg)
                     host_request (js ''r1''))) = 403
   \<and> resp (handleChat sample_platform (services_with 120000 plain_reply) (env_of locked_cfg)
             host_request (js ''r1''))
       = json 403 (chat_err (js ''FORBIDDEN_ORIGIN'') (JStr (js ''Origin not allowed.''))) (js ''r1'')
           [(js ''Access-Control-Allow-Origin'', js ''null''), (js ''Vary'', js ''Origin'')]
   \<and> handleChat sample_platform (services_with 120000 plain_reply) (env_of locked_cfg)
        (host_request\<lparr>headers := (headers host_request)(js ''origin'' \<mapsto> getRequestOrigin host_request)\<rparr>)
        (js ''r1'')
      = handleChat sample_platform (services_with 120000 plain_reply) (env_of locked_cfg)
          host_request (js ''r1'')"
proof -
  have h: "getHeader host_request (js ''origin'') = []"
    "getHeader host_request (js ''x-forwarded-host'') = []"
    "getHeader host_request (js ''x-forwarded-proto'') = []"
    "getHeader host_request (js ''x-forwarded-protocol'') = []"
    "getHeader host_request (js ''host'') = js ''chat.example.workers.dev''"
    by (simp_all add: getHeader_def host_request_def js_def)
  have b: "trimmed_string (getprop (Some (json_body host_request)) (js ''botId'')) = js ''acme''"
    by (simp add: host_request_def hello_body_def value_defs)
  have c: "BOT_CONFIG (env_of locked_cfg) (js ''acme'') = Some locked_cfg"
    by (simp add: env_of_def)
  have a: "allowedOrigins locked_cfg = Some [js ''https://shop.example'']"
    by (simp add: locked_cfg_def acme_cfg_def)
  have f: "status (resp (handleChat sample_platform (services_with 120000 plain_reply) (env_of locked_cfg)
                     host_request (js ''r1''))) = 403"
    by (simp add: handleChat_def host_forbidden)
  note t = derived_origin_is_checked_like_origin_header
    [of sample_platform "services_with 120000 plain_reply" "env_of locked_cfg" host_request "js ''r1''" locked_cfg]
  from t f have 1: "\<exists>cfg os. BOT_CONFIG (env_of locked_cfg)
                  (trimmed_string (getprop (Some (json_body host_request)) (js ''botId''))) = Some cfg
             \<and> allowedOrigins cfg = Some os \<and> os \<noteq> []
             \<and> \<not> isOriginAllowed sample_platform (getRequestOrigin host_request) (Some os)"
    by blast
  then have 2: "\<not> isOriginAllowed sample_platform (getRequestOrigin host_request) (allowedOrigins locked_cfg)"
    unfolding b c by auto
  from t have "getRequestOrigin host_request
       = (if getHeader host_request (js ''origin'') \<noteq> [] then getHeader host_request (js ''origin'')
          else if getHeader host_request (js ''x-forwarded-host'') = []
                  \<and> getHeader host_request (js ''host'') = [] then []
          else or_else (getHeader host_request (js ''x-forwarded-proto''))
                 (or_else (getHeader host_request (js ''x-forwarded-protocol'')) (js ''https''))
               @ js ''://''
               @ or_else (getHeader host_request (js ''x-forwarded-host'')) (getHeader host_request (js ''host'')))"
    by blast
  then have 3: "getRequestOrigin host_request = js ''https://'' @ js ''chat.example.workers.dev''"
    unfolding h by (simp add: or_else_def js_def)
  then have ne: "getRequestOrigin host_request \<noteq> []" by (simp add: js_def)
  from t c 2 ne f
  have 5: "resp (handleChat sample_platform (services_with 120000 plain_reply) (env_of locked_cfg)
             host_request (js ''r1''))
       = json 403 (chat_err (js ''FORBIDDEN_ORIGIN'') (JStr (js ''Origin not allowed.''))) (js ''r1'')
           [(js ''Access-Control-Allow-Origin'', js ''null''), (js ''Vary'', js ''Origin'')]"
    unfolding b by auto
  from t have 4: "handleChat sample_platform (services_with 120000 plain_reply) (env_of locked_cfg)
        (host_request\<lparr>headers := (headers host_request)(js ''origin'' \<mapsto> getRequestOrigin host_request)\<rparr>)
        (js ''r1'')
      = handleChat sample_platform (services_with 120000 plain_reply) (env_of locked_cfg)
          host_request (js ''r1'')" by blast
  from h(1) 3 c a 2 f 4 5 show ?thesis by blast
qed

section \<open>Inference failures\<close>

lemma failed_run:
  "resp (handleChat sample_platform (services_with 120000 upstream_failure) (env_of acme_cfg)
           hello_request (js ''r1''))
   = json 502
       (chat_err (js ''AI_ERROR'') (JStr (js ''5007: account 4821 is over its inference quota'')))
       (js ''r1'') []"
  unfolding handleChat_def admit_hello_acme
  by (simp add: serve_defs number_defs sample_defs upstream_failure_def hello_admission_def value_defs)

text \<open>
  C7 fails as stated: the request below sets no debug flag, the inference call throws an
  error whose message is an upstream payload, and the 502 body carries that text in
  \<open>detail\<close>.
\<close>

theorem upstream_message_in_502_body:
  "getprop (Some (json_body hello_request)) (js ''debug'') = None
   \<and> AI_run (services_with 120000 upstream_failure) (js ''@cf/meta/llama-3-8b-instruct'')
        [\<lparr> role = System, content = js ''You are the website assistant.'' \<rparr>,
         \<lparr> role = User, content = js ''hello'' \<rparr>] (Fin 512)
      = AiThrows (Some (JObj [(js ''message'', JStr (js ''5007: account 4821 is over its inference quota''))]))
   \<and> status (resp (handleChat sample_platform (services_with 120000 upstream_failure) (env_of acme_cfg)
                     hello_request (js ''r1''))) = 502
   \<and> body (resp (handleChat sample_platform (services_with 120000 upstream_failure) (env_of acme_cfg)
                   hello_request (js ''r1'')))
     = Err \<lparr> error = js ''AI_ERROR'',
             detail = JStr (js ''5007: account 4821 is over its inference quota'') \<rparr>"
  by (simp add: failed_run chat_err_def)
     (simp add: hello_request_def hello_body_def services_with_def upstream_failure_def js_def)

text \<open>
  C7, amended. Every failure of the inference call is answered with status 502 and the
  error code \<^verbatim>\<open>AI_ERROR\<close>; the \<open>detail\<close> of the body is the \<^verbatim>\<open>message\<close> of the thrown
  value when it has a truthy one, and the fixed text \<^verbatim>\<open>AI call failed.\<close> otherwise. The
  debug flag of the request plays no part.
\<close>

theorem inference_failure_is_502_with_error_message:
  assumes "sent (handleChat P S e req rid) = Some (m, inp, mt)"
    and "AI_run S m inp mt = AiThrows x"
  shows "status (resp (handleChat P S e req rid)) = 502
       \<and> body (resp (handleChat P S e req rid))
         = Err \<lparr> error = js ''AI_ERROR'',
                 detail = (if truthy_opt (getprop x (js ''message'')) then the (getprop x (js ''message''))
                           else JStr (js ''AI call failed.'')) \<rparr>"
proof -
  from assms(1) obtain a cache1 budget cache2 where
    c: "handleChat P S e req rid = converse P S a rid cache1 budget"
    and t: "trim_messages P (adm_cfg a) (adm_messages a) \<noteq> []"
    and pr: "prepare P S (adm_cfg a) cache1 (trim_messages P (adm_cfg a) (adm_messages a))
             = (cache2, m, inp, mt)"
    by (rule handleChat_sent)
  show ?thesis
    unfolding c converse_throws [OF t pr assms(2)]
    by (simp add: chat_err_def ai_error_detail_def)
qed

text \<open>C7 amended, an instance: the inference call throws a value without a message.\<close>

theorem inference_failure_is_502_with_error_message_witness:
  "sent (handleChat sample_platform (services_with 120000 silent_failure) (env_of acme_cfg)
           hello_request (js ''r1''))
     = Some (js ''@cf/meta/llama-3-8b-instruct'',
             [\<lparr> role = System, content = js ''You are the website assistant.'' \<rparr>,
              \<lparr> role = User, content = js ''hello'' \<rparr>], Fin 512)
   \<and> AI_run (services_with 120000 silent_failure) (js ''@cf/meta/llama-3-8b-instruct'')
        [\<lparr> role = System, content = js ''You are the website assistant.'' \<rparr>,
         \<lparr> role = User, content = js ''hello'' \<rparr>] (Fin 512) = AiThrows None
   \<and> status (resp (handleChat sample_platform (services_with 120000 silent_failure) (env_of acme_cfg)
                     hello_request (js ''r1''))) = 502
   \<and> body (resp (handleChat sample_platform (services_with 120000 silent_failure) (env_of acme_cfg)
                   hello_request (js ''r1'')))
     = Err \<lparr> error = js ''AI_ERROR'', detail = JStr (js ''AI call failed.'') \<rparr>"
proof -
  have s: "sent (handleChat sample_platform (services_with 120000 silent_failure) (env_of acme_cfg)
                   hello_request (js ''r1''))
           = Some (js ''@cf/meta/llama-3-8b-instruct'',
                   [\<lparr> role = System, content = js ''You are the website assistant.'' \<rparr>,
                    \<lparr> role = User, content = js ''hello'' \<rparr>], Fin 512)"
    by (rule hello_run_with [where x = None]) (simp add: silent_failure_def)
  have t: "AI_run (services_with 120000 silent_failure) (js ''@cf/meta/llama-3-8b-instruct'')
             [\<lparr> role = System, content = js ''You are the website assistant.'' \<rparr>,
              \<lparr> role = User, content = js ''hello'' \<rparr>] (Fin 512) = AiThrows None"
    by (simp add: services_with_def silent_failure_def)
  from inference_failure_is_502_with_error_message [OF s t] s t
  show ?thesis by (simp add: truthy_opt_def)
qed

section \<open>The action policy\<close>

lemma extract_lead:
  "extractActionFromModelOutput sample_platform lead_json
   = (js ''Thanks'', Some (CreateLead, Some (JObj [(js ''plan'', JStr (js ''pro''))])))"
proof -
  have t: "trim lead_json = lead_json"
    by (simp add: lead_json_def trim_def is_space_def js_def)
  have p: "safeJsonParse sample_platform lead_json = lead_value"
    by (simp add: safeJsonParse_def sample_platform_def)
  have b: "lead_json \<noteq> []" "hd lead_json = 0x7B" "last lead_json = 0x7D"
    by (simp_all add: lead_json_def js_def)
  show ?thesis
    unfolding extractActionFromModelOutput_def t p Let_def
    by (simp add: b) (simp add: lead_value_def string_prop_def ActionType_of_def truthy_opt_def js_def)
qed

lemma rawText_lead: "rawText_of (Some (JObj [(js ''response'', JStr lead_json)])) = lead_json"
  by (simp add: rawText_of_def string_prop_def or_else_def lead_json_def js_def)

lemma admit_hello_restricted:
  "admit sample_platform (BOT_CONFIG (env_of restricted_cfg)) hello_request rid
   = Inr (hello_admission restricted_cfg)"
  by (simp add: admit_defs sample_defs restricted_cfg_def hello_admission_def value_defs)

lemma hello_run_restricted:
  "sent (handleChat sample_platform (services_with 120000 lead_reply) (env_of restricted_cfg)
           hello_request rid)
   = Some (js ''@cf/meta/llama-3-8b-instruct'',
           [\<lparr> role = System, content = js ''You are the website assistant.'' \<rparr>,
            \<lparr> role = User, content = js ''hello'' \<rparr>], Fin 512)"
  unfolding handleChat_def admit_hello_restricted
  by (simp add: serve_defs number_defs sample_defs restricted_cfg_def lead_reply_def
        hello_admission_def value_defs)

text \<open>
  C3. When the model output parses into a structured action: with the action policy
  disabled (\<open>actionsEnabled\<close> not true) the response has no action, only the extracted
  message (made safe: trimmed, with the fixed apology when empty); with the policy enabled
  and a configured, non-empty \<open>allowedActionTypes\<close> that does not contain the parsed type,
  the action of the response is of type \<open>none\<close>, without payload.
\<close>

theorem action_policy_enforced:
  assumes "admit P (BOT_CONFIG e) req rid = Inr a"
    and "sent (handleChat P S e req rid) = Some (m, inp, mt)"
    and "AI_run S m inp mt = AiReturns ai"
    and "extractActionFromModelOutput P (rawText_of ai) = (msg, Some (t, p))"
  shows "(Option.bind (actions (adm_cfg a)) actionsEnabled \<noteq> Some True \<longrightarrow>
            (\<exists>ok. body (resp (handleChat P S e req rid)) = Ok ok
                 \<and> action ok = None \<and> message ok = safeMessage msg))
       \<and> (Option.bind (actions (adm_cfg a)) actionsEnabled = Some True \<longrightarrow>
            (\<forall>ts. Option.bind (actions (adm_cfg a)) allowedActionTypes = Some ts \<and> ts \<noteq> [] \<and> t \<notin> set ts \<longrightarrow>
               (\<exists>ok. body (resp (handleChat P S e req rid)) = Ok ok
                    \<and> action ok = Some \<lparr> action_type = NoAction, contactUrl_of = None, payload = None \<rparr>
                    \<and> message ok = safeMessage msg)))"
proof -
  from assms(2) obtain a' cache1 budget cache2 where
    a': "admit P (BOT_CONFIG e) req rid = Inr a'"
    and c: "handleChat P S e req rid = converse P S a' rid cache1 budget"
    and t: "trim_messages P (adm_cfg a') (adm_messages a') \<noteq> []"
    and pr: "prepare P S (adm_cfg a') cache1 (trim_messages P (adm_cfg a') (adm_messages a'))
             = (cache2, m, inp, mt)"
    by (rule handleChat_sent)
  from a' assms(1) have [simp]: "a' = a" by simp
  have r: "resp (handleChat P S e req rid) = fst (finish P a rid cache2 budget inp ai)"
    unfolding c using converse_returns [OF t pr assms(3)] by simp
  have b: "body (resp (handleChat P S e req rid))
           = chat_ok (adm_cfg a) (adm_debug a) ai msg (enforce_policy (adm_cfg a) (Some (t, p)))"
    unfolding r finish_resp by (simp add: assms(4))
  have off: "enforce_policy (adm_cfg a) (Some (t, p)) = None"
    if "Option.bind (actions (adm_cfg a)) actionsEnabled \<noteq> Some True"
    using that by (simp add: enforce_policy_def Let_def)
  have down: "enforce_policy (adm_cfg a) (Some (t, p)) = Some (NoAction, None)"
    if "Option.bind (actions (adm_cfg a)) actionsEnabled = Some True"
       "Option.bind (actions (adm_cfg a)) allowedActionTypes = Some ts" "ts \<noteq> []" "t \<notin> set ts" for ts
    using that by (cases ts) (simp_all add: enforce_policy_def Let_def)
  show ?thesis
    unfolding b using off down by (auto simp: chat_ok_def)
qed

text \<open>
  C3, two instances: the model answers with a \<open>create_lead\<close> envelope; the bot without an
  action policy answers with the message alone, the bot that only allows \<open>open_contact\<close>
  answers with an action of type \<open>none\<close>.
\<close>

theorem action_policy_enforced_witness:
  "(\<exists>ok. body (resp (handleChat sample_platform (services_with 120000 lead_reply) (env_of acme_cfg)
                        hello_request (js ''r1''))) = Ok ok
        \<and> action ok = None \<and> message ok = js ''Thanks'')
   \<and> (\<exists>ok. body (resp (handleChat sample_platform (services_with 120000 lead_reply) (env_of restricted_cfg)
                          hello_request (js ''r1''))) = Ok ok
          \<and> action ok = Some \<lparr> action_type = NoAction, contactUrl_of = None, payload = None \<rparr>
          \<and> message ok = js ''Thanks'')"
proof -
  let ?inp = "[\<lparr> role = System, content = js ''You are the website assistant.'' \<rparr>,
               \<lparr> role = User, content = js ''hello'' \<rparr>]"
  let ?ai = "Some (JObj [(js ''response'', JStr lead_json)])"
  have run: "AI_run (services_with 120000 lead_reply) (js ''@cf/meta/llama-3-8b-instruct'') ?inp (Fin 512)
             = AiReturns ?ai"
    by (simp add: services_with_def lead_reply_def)
  have ex: "extractActionFromModelOutput sample_platform (rawText_of ?ai)
            = (js ''Thanks'', Some (CreateLead, Some (JObj [(js ''plan'', JStr (js ''pro''))])))"
    by (simp only: rawText_lead extract_lead)
  have s1: "sent (handleChat sample_platform (services_with 120000 lead_reply) (env_of acme_cfg)
                    hello_request (js ''r1''))
            = Some (js ''@cf/meta/llama-3-8b-instruct'', ?inp, Fin 512)"
    by (rule hello_run_with [where y = ?ai]) (simp add: lead_reply_def)
  have m: "safeMessage (js ''Thanks'') = js ''Thanks''"
    by (simp add: safeMessage_def value_defs)
  have off: "Option.bind (actions (adm_cfg (hello_admission acme_cfg))) actionsEnabled \<noteq> Some True"
    by (simp add: hello_admission_def acme_cfg_def)
  have on: "Option.bind (actions (adm_cfg (hello_admission restricted_cfg))) actionsEnabled = Some True"
    "Option.bind (actions (adm_cfg (hello_admission restricted_cfg))) allowedActionTypes = Some [OpenContact]"
    by (simp_all add: hello_admission_def restricted_cfg_def)
  from action_policy_enforced [OF admit_hello_acme s1 run ex] off
  have 1: "\<exists>ok. body (resp (handleChat sample_platform (services_with 120000 lead_reply) (env_of acme_cfg)
                        hello_request (js ''r1''))) = Ok ok
        \<and> action ok = None \<and> message ok = js ''Thanks''"
    by (simp add: m)
  from action_policy_enforced [OF admit_hello_restricted hello_run_restricted run ex] on
  have 2: "\<exists>ok. body (resp (handleChat sample_platform (services_with 120000 lead_reply) (env_of restricted_cfg)
                          hello_request (js ''r1''))) = Ok ok
          \<and> action ok = Some \<lparr> action_type = NoAction, contactUrl_of = None, payload = None \<rparr>
          \<and> message ok = js ''Thanks''"
    by (simp add: m)
  from 1 2 show ?thesis by blast
qed

section \<open>The daily budget is charged after a successful call only\<close>

lemma rate_key_not_budget:
  "rate_key P bid ip b \<noteq> budget_key bid' d" "budget_key bid' d \<noteq> rate_key P bid ip b"
  by (simp_all add: rate_key_def budget_key_def js_def)

lemma rag_key_not_budget:
  "js ''kb:'' @ u \<noteq> budget_key bid d" "js ''emb:'' @ h \<noteq> budget_key bid d"
  "budget_key bid d \<noteq> js ''kb:'' @ u" "budget_key bid d \<noteq> js ''emb:'' @ h"
  by (simp_all add: budget_key_def js_def)

lemma checkRateLimit_budget_frame:
  "checkRateLimit P t cache bid req cfg = (rl, cache1)
   \<Longrightarrow> cache1 (budget_key bid' d) = cache (budget_key bid' d)"
  by (auto simp: checkRateLimit_def Let_def rate_key_not_budget split: if_splits)

lemma rag_writes_budget_frame:
  "foldl apply_rag_write cache ws (budget_key bid d) = cache (budget_key bid d)"
proof (induction ws arbitrary: cache)
  case Nil
  show ?case by simp
next
  case (Cons w ws)
  show ?case
    by (cases w) (simp_all add: Cons.IH rag_key_not_budget)
qed

lemma prepare_budget_frame:
  "prepare P S cfg cache trimmed = (cache1, m, inp, mt)
   \<Longrightarrow> cache1 (budget_key bid d) = cache (budget_key bid d)"
  by (auto simp: prepare_def Let_def rag_writes_budget_frame)

lemma getBudgetState_cong:
  "c1 (budget_key bid d) = c2 (budget_key bid d)
   \<Longrightarrow> getBudgetState P c1 bid d = getBudgetState P c2 bid d"
  by (simp add: getBudgetState_def)

lemma checkDailyBudget_cong:
  "(\<And>bid d. c1 (budget_key bid d) = c2 (budget_key bid d))
   \<Longrightarrow> checkDailyBudget P t c1 cfg = checkDailyBudget P t c2 cfg"
proof -
  assume "\<And>bid d. c1 (budget_key bid d) = c2 (budget_key bid d)"
  then have "getBudgetState P c1 (botId cfg) (utcDayKey P t) = getBudgetState P c2 (botId cfg) (utcDayKey P t)"
    by (intro getBudgetState_cong)
  then show ?thesis
    by (cases "dailyBudget cfg") (simp_all add: checkDailyBudget_def Let_def)
qed

lemma checkDailyBudget_tracked:
  "checkDailyBudget P t c cfg = BudgetOk (Some (dayKey, st))
   \<Longrightarrow> dayKey = utcDayKey P t \<and> st = getBudgetState P c (botId cfg) dayKey"
  by (auto simp: checkDailyBudget_def Let_def split: option.splits if_splits)

lemma decimal_nonempty: "decimal n \<noteq> []"
  by (subst decimal.simps) simp

lemma utcDayKey_nonempty: "utcDayKey P t \<noteq> []"
  by (simp add: utcDayKey_def decimal_nonempty split: prod.splits)

lemma finish_cache_tracked:
  "dayKey \<noteq> [] \<Longrightarrow>
   snd (finish P a rid cache (Some (dayKey, st)) inp ai)
   = cache(budget_key (botId (adm_cfg a)) dayKey \<mapsto>
       JSON_stringify P (BudgetState_value
         \<lparr> requests = max0 (num_add (requests st) (Fin 1)),
           tokens = max0 (num_add (tokens st) (max0 (totalTokensEstimate inp ai))) \<rparr>))"
  by (simp add: finish_def Let_def incrementDailyBudget_def putBudgetState_def)

lemma finish_cache_untracked: "snd (finish P a rid cache None inp ai) = cache"
  by (simp add: finish_def Let_def)

text \<open>Every way a request ends without a 200 leaves all budget records as they were.\<close>

lemma converse_budget_frame:
  assumes "status (resp (converse P S a rid cache budget)) \<noteq> 200"
  shows "cache_after (converse P S a rid cache budget) (budget_key bid d) = cache (budget_key bid d)"
proof (cases rule: converse_cases [where P = P and S = S and a = a and rid = rid
                                      and cache = cache and budget = budget])
  case no_messages
  then show ?thesis by simp
next
  case (throws cache1 model1 inp maxTokens1 e)
  with prepare_budget_frame [OF throws(2)] show ?thesis by simp
next
  case (returns cache1 model1 inp maxTokens1 ai)
  with assms show ?thesis by (simp add: finish_resp)
qed

lemma serve_budget_frame:
  assumes "status (resp (serve P S cache req rid a)) \<noteq> 200"
  shows "cache_after (serve P S cache req rid a) (budget_key bid d) = cache (budget_key bid d)"
proof (cases rule: serve_cases [where P = P and S = S and a = a and rid = rid
                                   and cache = cache and req = req])
  case (rate_limited rl)
  then show ?thesis by simp
next
  case (over_budget rl cache1 d')
  with checkRateLimit_budget_frame [OF over_budget(1)] show ?thesis by simp
next
  case (conversed rl cache1 budget)
  with assms converse_budget_frame [of P S a rid cache1 budget bid d]
    checkRateLimit_budget_frame [OF conversed(1), of bid d]
  show ?thesis by simp
qed

lemma handleChat_budget_frame:
  assumes "status (resp (handleChat P S e req rid)) \<noteq> 200"
  shows "cache_after (handleChat P S e req rid) (budget_key bid d) = KB_CACHE e (budget_key bid d)"
proof (cases "admit P (BOT_CONFIG e) req rid")
  case (Inl r)
  then show ?thesis by (simp add: handleChat_def)
next
  case (Inr a)
  with assms serve_budget_frame [of P S "KB_CACHE e" req rid a bid d]
  show ?thesis by (simp add: handleChat_def)
qed

text \<open>A 200 comes from a successful inference call, made after the budget check passed.\<close>

lemma handleChat_200_budget:
  assumes "status (resp (handleChat P S e req rid)) = 200"
  obtains a cache2 budget m inp mt ai where
    "admit P (BOT_CONFIG e) req rid = Inr a"
    "sent (handleChat P S e req rid) = Some (m, inp, mt)"
    "AI_run S m inp mt = AiReturns ai"
    "checkDailyBudget P (now_budget S) (KB_CACHE e) (adm_cfg a) = BudgetOk budget"
    "\<And>bid d. cache2 (budget_key bid d) = KB_CACHE e (budget_key bid d)"
    "cache_after (handleChat P S e req rid) = snd (finish P a rid cache2 budget inp ai)"
proof (cases "admit P (BOT_CONFIG e) req rid")
  case (Inl r)
  with admit_Inl_status [OF Inl] assms show ?thesis by (auto simp: handleChat_def)
next
  case (Inr a)
  then have h: "handleChat P S e req rid = serve P S (KB_CACHE e) req rid a"
    by (simp add: handleChat_def)
  show ?thesis
  proof (cases rule: serve_cases [where P = P and S = S and a = a and rid = rid
                                     and cache = "KB_CACHE e" and req = req])
    case (rate_limited rl)
    with assms h show ?thesis by simp
  next
    case (over_budget rl cache1 d)
    with assms h show ?thesis by simp
  next
    case (conversed rl cache1 budget)
    with h have c: "handleChat P S e req rid = converse P S a rid cache1 budget" by simp
    have f1: "cache1 (budget_key bid d) = KB_CACHE e (budget_key bid d)" for bid d
      by (rule checkRateLimit_budget_frame [OF conversed(1)])
    have b: "checkDailyBudget P (now_budget S) (KB_CACHE e) (adm_cfg a) = BudgetOk budget"
      using checkDailyBudget_cong [of cache1 "KB_CACHE e" P "now_budget S" "adm_cfg a"] f1 conversed(3)
      by simp
    show ?thesis
    proof (cases rule: converse_cases [where P = P and S = S and a = a and rid = rid
                                          and cache = cache1 and budget = budget])
      case no_messages
      with assms c show ?thesis by simp
    next
      case (throws cache2 model1 inp1 maxTokens1 e1)
      with assms c show ?thesis by simp
    next
      case (returns cache2 model1 inp1 maxTokens1 ai)
      have f2: "cache2 (budget_key bid d) = KB_CACHE e (budget_key bid d)" for bid d
        using prepare_budget_frame [OF returns(2), of bid d] f1 by simp
      show ?thesis
        by (rule that [OF Inr _ returns(3) b f2]) (simp_all add: c returns(4))
    qed
  qed
qed

text \<open>
  C5, amended. A request that does not end in a 200 (an admission step rejected it, or the
  inference call threw and it ended in 502) leaves every stored budget record unchanged. A
  200 comes from a successful inference call; when the bot has a daily budget with a
  positive ceiling, the record of the bot and UTC day is then rewritten from the state read
  at the budget check: \<open>requests\<close> becomes max(0, requests + 1) and \<open>tokens\<close> becomes
  max(0, tokens + max(0, T)), where T is the \<^verbatim>\<open>total_tokens\<close> (or \<^verbatim>\<open>totalTokens\<close>) that
  the service reported as a number and otherwise the estimate of one token per four
  characters, rounded up and at least one, summed over the messages sent and the reply
  text; no other budget record changes. When the bot has no daily budget, or both ceilings
  are zero, no budget record is written at all.
\<close>

theorem daily_budget_accounting:
  "(status (resp (handleChat P S e req rid)) \<noteq> 200 \<longrightarrow>
      (\<forall>bid d. cache_after (handleChat P S e req rid) (budget_key bid d) = KB_CACHE e (budget_key bid d)))
   \<and> (status (resp (handleChat P S e req rid)) = 200 \<longrightarrow>
      (\<exists>a m inp mt ai.
          admit P (BOT_CONFIG e) req rid = Inr a
        \<and> sent (handleChat P S e req rid) = Some (m, inp, mt)
        \<and> AI_run S m inp mt = AiReturns ai
        \<and> (case checkDailyBudget P (now_budget S) (KB_CACHE e) (adm_cfg a) of
             BudgetOk (Some (dayKey, st)) \<Rightarrow>
               dayKey = utcDayKey P (now_budget S)
               \<and> st = getBudgetState P (KB_CACHE e) (botId (adm_cfg a)) dayKey
               \<and> cache_after (handleChat P S e req rid) (budget_key (botId (adm_cfg a)) dayKey)
                   = Some (JSON_stringify P (BudgetState_value
                       \<lparr> requests = max0 (num_add (requests st) (Fin 1)),
                         tokens = max0 (num_add (tokens st)
                                    (max0 (case totalTokensFromModel ai of
                                             Some n \<Rightarrow> n
                                           | None \<Rightarrow>
                                               Fin (of_nat
                                                 (sum_list (map (\<lambda>m. estimateTokensFromText (content m)) inp)
                                                  + estimateTokensFromText (rawText_of ai)))))) \<rparr>))
               \<and> (\<forall>bid d. budget_key bid d \<noteq> budget_key (botId (adm_cfg a)) dayKey \<longrightarrow>
                      cache_after (handleChat P S e req rid) (budget_key bid d)
                      = KB_CACHE e (budget_key bid d))
           | _ \<Rightarrow>
               (\<forall>bid d. cache_after (handleChat P S e req rid) (budget_key bid d)
                        = KB_CACHE e (budget_key bid d)))))"
proof (intro conjI impI)
  assume "status (resp (handleChat P S e req rid)) \<noteq> 200"
  then show "\<forall>bid d. cache_after (handleChat P S e req rid) (budget_key bid d)
                     = KB_CACHE e (budget_key bid d)"
    by (simp add: handleChat_budget_frame)
next
  assume ok: "status (resp (handleChat P S e req rid)) = 200"
  show "\<exists>a m inp mt ai.
          admit P (BOT_CONFIG e) req rid = Inr a
        \<and> sent (handleChat P S e req rid) = Some (m, inp, mt)
        \<and> AI_run S m inp mt = AiReturns ai
        \<and> (case checkDailyBudget P (now_budget S) (KB_CACHE e) (adm_cfg a) of
             BudgetOk (Some (dayKey, st)) \<Rightarrow>
               dayKey = utcDayKey P (now_budget S)
               \<and> st = getBudgetState P (KB_CACHE e) (botId (adm_cfg a)) dayKey
               \<and> cache_after (handleChat P S e req rid) (budget_key (botId (adm_cfg a)) dayKey)
                   = Some (JSON_stringify P (BudgetState_value
                       \<lparr> requests = max0 (num_add (requests st) (Fin 1)),
                         tokens = max0 (num_add (tokens st)
                                    (max0 (case totalTokensFromModel ai of
                                             Some n \<Rightarrow> n
                                           | None \<Rightarrow>
                                               Fin (of_nat
                                                 (sum_list (map (\<lambda>m. estimateTokensFromText (content m)) inp)
                                                  + estimateTokensFromText (rawText_of ai)))))) \<rparr>))
               \<and> (\<forall>bid d. budget_key bid d \<noteq> budget_key (botId (adm_cfg a)) dayKey \<longrightarrow>
                      cache_after (handleChat P S e req rid) (budget_key bid d)
                      = KB_CACHE e (budget_key bid d))
           | _ \<Rightarrow>
               (\<forall>bid d. cache_after (handleChat P S e req rid) (budget_key bid d)
                        = KB_CACHE e (budget_key bid d)))"
  proof (rule handleChat_200_budget [OF ok])
  fix a cache2 budget m inp mt ai
  assume a: "admit P (BOT_CONFIG e) req rid = Inr a"
    and s: "sent (handleChat P S e req rid) = Some (m, inp, mt)"
    and r: "AI_run S m inp mt = AiReturns ai"
    and b: "checkDailyBudget P (now_budget S) (KB_CACHE e) (adm_cfg a) = BudgetOk budget"
    and f: "\<And>bid d. cache2 (budget_key bid d) = KB_CACHE e (budget_key bid d)"
    and c: "cache_after (handleChat P S e req rid) = snd (finish P a rid cache2 budget inp ai)"
  have "case checkDailyBudget P (now_budget S) (KB_CACHE e) (adm_cfg a) of
             BudgetOk (Some (dayKey, st)) \<Rightarrow>
               dayKey = utcDayKey P (now_budget S)
               \<and> st = getBudgetState P (KB_CACHE e) (botId (adm_cfg a)) dayKey
               \<and> cache_after (handleChat P S e req rid) (budget_key (botId (adm_cfg a)) dayKey)
                   = Some (JSON_stringify P (BudgetState_value
                       \<lparr> requests = max0 (num_add (requests st) (Fin 1)),
                         tokens = max0 (num_add (tokens st)
                                    (max0 (case totalTokensFromModel ai of
                                             Some n \<Rightarrow> n
                                           | None \<Rightarrow>
                                               Fin (of_nat
                                                 (sum_list (map (\<lambda>m. estimateTokensFromText (content m)) inp)
                                                  + estimateTokensFromText (rawText_of ai)))))) \<rparr>))
               \<and> (\<forall>bid d. budget_key bid d \<noteq> budget_key (botId (adm_cfg a)) dayKey \<longrightarrow>
                      cache_after (handleChat P S e req rid) (budget_key bid d)
                      = KB_CACHE e (budget_key bid d))
           | _ \<Rightarrow>
               (\<forall>bid d. cache_after (handleChat P S e req rid) (budget_key bid d)
                        = KB_CACHE e (budget_key bid d))"
  proof (cases budget)
    case None
    with b c f show ?thesis by (simp add: finish_cache_untracked)
  next
    case (Some ds)
    obtain dayKey st where ds: "ds = (dayKey, st)" by (cases ds)
    from b Some ds have b': "checkDailyBudget P (now_budget S) (KB_CACHE e) (adm_cfg a)
                             = BudgetOk (Some (dayKey, st))" by simp
    from checkDailyBudget_tracked [OF b'] have
      dk: "dayKey = utcDayKey P (now_budget S)"
      and st: "st = getBudgetState P (KB_CACHE e) (botId (adm_cfg a)) dayKey" by simp_all
    from dk have ne: "dayKey \<noteq> []" by (simp add: utcDayKey_nonempty)
    have c': "cache_after (handleChat P S e req rid)
              = cache2(budget_key (botId (adm_cfg a)) dayKey \<mapsto>
                  JSON_stringify P (BudgetState_value
                    \<lparr> requests = max0 (num_add (requests st) (Fin 1)),
                      tokens = max0 (num_add (tokens st) (max0 (totalTokensEstimate inp ai))) \<rparr>))"
      unfolding c Some ds by (rule finish_cache_tracked [OF ne])
    show ?thesis
      unfolding b' using dk st f
      by (simp add: c' totalTokensEstimate_def Let_def)
  qed
  with a s r show ?thesis by blast
  qed
qed

text \<open>
  C5 fails as stated: the request below is answered with 200 after a successful inference
  call, yet the budget record of the bot and day is as absent afterwards as before (the bot
  has no daily budget configured, so nothing is counted).
\<close>

theorem success_without_budget_not_counted:
  "status (resp (handleChat sample_platform (services_with 120000 plain_reply) (env_of acme_cfg)
                   hello_request (js ''r1''))) = 200
   \<and> sent (handleChat sample_platform (services_with 120000 plain_reply) (env_of acme_cfg)
             hello_request (js ''r1'')) \<noteq> None
   \<and> utcDayKey sample_platform (now_budget (services_with 120000 plain_reply)) = js ''20260221''
   \<and> cache_after (handleChat sample_platform (services_with 120000 plain_reply) (env_of acme_cfg)
                    hello_request (js ''r1'')) (budget_key (js ''acme'') (js ''20260221'')) = None
   \<and> getBudgetState sample_platform
        (cache_after (handleChat sample_platform (services_with 120000 plain_reply) (env_of acme_cfg)
                        hello_request (js ''r1''))) (js ''acme'') (js ''20260221'')
      = \<lparr> requests = Fin 0, tokens = Fin 0 \<rparr>"
proof -
  have k: "cache_after (handleChat sample_platform (services_with 120000 plain_reply) (env_of acme_cfg)
                    hello_request (js ''r1'')) (budget_key (js ''acme'') (js ''20260221'')) = None"
    unfolding hello_run by (simp add: budget_key_def js_def)
  have d: "utcDayKey sample_platform (now_budget (services_with 120000 plain_reply)) = js ''20260221''"
    by (simp add: utcDayKey_def padStart2_def sample_platform_def decimal.simps digit_char_def js_def)
  have g: "getBudgetState sample_platform
        (cache_after (handleChat sample_platform (services_with 120000 plain_reply) (env_of acme_cfg)
                        hello_request (js ''r1''))) (js ''acme'') (js ''20260221'')
      = \<lparr> requests = Fin 0, tokens = Fin 0 \<rparr>"
    unfolding getBudgetState_def k by (simp add: Let_def nullish_def Number_value_def)
  show ?thesis
    using k d g by (simp add: hello_run)
qed

lemma admit_hello_budget:
  "admit sample_platform (BOT_CONFIG (env_of budget_cfg)) hello_request rid
   = Inr (hello_admission budget_cfg)"
  by (simp add: admit_defs sample_defs budget_cfg_def hello_admission_def value_defs)

lemma budget_run:
  "status (resp (handleChat sample_platform (services_with 120000 plain_reply) (env_of budget_cfg)
                   hello_request (js ''r1''))) = 200
   \<and> sent (handleChat sample_platform (services_with 120000 plain_reply) (env_of budget_cfg)
             hello_request (js ''r1''))
     = Some (js ''@cf/meta/llama-3-8b-instruct'',
             [\<lparr> role = System, content = js ''You are the website assistant.'' \<rparr>,
              \<lparr> role = User, content = js ''hello'' \<rparr>], Fin 512)"
  unfolding handleChat_def admit_hello_budget
  by (simp add: serve_defs number_defs sample_defs budget_cfg_def plain_reply_def
        hello_admission_def value_defs)

lemma budget_check_first:
  "checkDailyBudget sample_platform 120000 Map.empty budget_cfg
   = BudgetOk (Some (js ''20260221'', \<lparr> requests = Fin 0, tokens = Fin 0 \<rparr>))"
  by (simp add: checkDailyBudget_def getBudgetState_def budget_cfg_def acme_cfg_def utcDayKey_def
        padStart2_def sample_platform_def number_defs Number_value_def value_defs)

text \<open>
  C5 amended, an instance: the first request of the day to a bot with a daily request
  budget. The reply reports no usage, so the estimate is charged: 8 + 2 tokens for the two
  messages sent and 2 for the reply.
\<close>

theorem daily_budget_accounting_witness:
  "status (resp (handleChat sample_platform (services_with 120000 plain_reply) (env_of budget_cfg)
                   hello_request (js ''r1''))) = 200
   \<and> KB_CACHE (env_of budget_cfg) (budget_key (js ''acme'') (js ''20260221'')) = None
   \<and> cache_after (handleChat sample_platform (services_with 120000 plain_reply) (env_of budget_cfg)
                    hello_request (js ''r1'')) (budget_key (js ''acme'') (js ''20260221''))
     = Some (JSON_stringify sample_platform
               (BudgetState_value \<lparr> requests = Fin 1, tokens = Fin 12 \<rparr>))"
proof -
  let ?R = "handleChat sample_platform (services_with 120000 plain_reply) (env_of budget_cfg)
              hello_request (js ''r1'')"
  let ?inp = "[\<lparr> role = System, content = js ''You are the website assistant.'' \<rparr>,
               \<lparr> role = User, content = js ''hello'' \<rparr>]"
  have ok: "status (resp ?R) = 200" by (simp add: budget_run)
  from daily_budget_accounting [of sample_platform "services_with 120000 plain_reply"
         "env_of budget_cfg" hello_request "js ''r1''"] ok
  obtain a m inp mt ai where
    a: "admit sample_platform (BOT_CONFIG (env_of budget_cfg)) hello_request (js ''r1'') = Inr a"
    and s: "sent ?R = Some (m, inp, mt)"
    and r: "AI_run (services_with 120000 plain_reply) m inp mt = AiReturns ai"
    and c: "case checkDailyBudget sample_platform (now_budget (services_with 120000 plain_reply))
                   (KB_CACHE (env_of budget_cfg)) (adm_cfg a) of
             BudgetOk (Some (dayKey, st)) \<Rightarrow>
               dayKey = utcDayKey sample_platform (now_budget (services_with 120000 plain_reply))
               \<and> st = getBudgetState sample_platform (KB_CACHE (env_of budget_cfg)) (botId (adm_cfg a)) dayKey
               \<and> cache_after ?R (budget_key (botId (adm_cfg a)) dayKey)
                   = Some (JSON_stringify sample_platform (BudgetState_value
                       \<lparr> requests = max0 (num_add (requests st) (Fin 1)),
                         tokens = max0 (num_add (tokens st)
                                    (max0 (case totalTokensFromModel ai of
                                             Some n \<Rightarrow> n
                                           | None \<Rightarrow>
                                               Fin (of_nat
                                                 (sum_list (map (\<lambda>m. estimateTokensFromText (content m)) inp)
                                                  + estimateTokensFromText (rawText_of ai)))))) \<rparr>))
               \<and> (\<forall>bid d. budget_key bid d \<noteq> budget_key (botId (adm_cfg a)) dayKey \<longrightarrow>
                      cache_after ?R (budget_key bid d) = KB_CACHE (env_of budget_cfg) (budget_key bid d))
           | _ \<Rightarrow>
               (\<forall>bid d. cache_after ?R (budget_key bid d)
                        = KB_CACHE (env_of budget_cfg) (budget_key bid d))"
    by auto
  from a have a': "a = hello_admission budget_cfg" by (simp add: admit_hello_budget)
  from s have i: "inp = ?inp" by (simp add: budget_run)
  from r have ai: "ai = Some (JObj [(js ''response'', JStr (js ''Hi there''))])"
    by (simp add: services_with_def plain_reply_def)
  have b: "checkDailyBudget sample_platform (now_budget (services_with 120000 plain_reply))
             (KB_CACHE (env_of budget_cfg)) (adm_cfg a)
           = BudgetOk (Some (js ''20260221'', \<lparr> requests = Fin 0, tokens = Fin 0 \<rparr>))"
    using budget_check_first by (simp add: a' hello_admission_def services_with_def env_of_def)
  have t: "totalTokensFromModel ai = None"
    by (simp add: ai totalTokensFromModel_def or_value_def truthy_opt_def js_def Let_def)
  have e: "sum_list (map (\<lambda>m. estimateTokensFromText (content m)) inp)
           + estimateTokensFromText (rawText_of ai) = 12"
    by (simp add: i ai estimateTokensFromText_def rawText_of_def string_prop_def or_else_def js_def)
  have bid: "botId (adm_cfg a) = js ''acme''"
    by (simp add: a' hello_admission_def budget_cfg_def acme_cfg_def)
  have gen: "cache_after ?R (budget_key (botId (adm_cfg a)) dk)
     = Some (JSON_stringify sample_platform (BudgetState_value
               \<lparr> requests = max0 (num_add (requests st) (Fin 1)),
                 tokens = max0 (num_add (tokens st)
                            (max0 (case totalTokensFromModel ai of
                                     Some n \<Rightarrow> n
                                   | None \<Rightarrow>
                                       Fin (of_nat
                                         (sum_list (map (\<lambda>m. estimateTokensFromText (content m)) inp)
                                          + estimateTokensFromText (rawText_of ai)))))) \<rparr>))"
    if "checkDailyBudget sample_platform (now_budget (services_with 120000 plain_reply))
             (KB_CACHE (env_of budget_cfg)) (adm_cfg a) = BudgetOk (Some (dk, st))" for dk st
    by (rule c [unfolded that budget_check.case option.case prod.case,
                THEN conjunct2, THEN conjunct2, THEN conjunct1])
  have "cache_after ?R (budget_key (botId (adm_cfg a)) (js ''20260221''))
     = Some (JSON_stringify sample_platform (BudgetState_value
               \<lparr> requests = max0 (num_add (Fin 0) (Fin 1)),
                 tokens = max0 (num_add (Fin 0)
                            (max0 (case totalTokensFromModel ai of
                                     Some n \<Rightarrow> n
                                   | None \<Rightarrow>
                                       Fin (of_nat
                                         (sum_list (map (\<lambda>m. estimateTokensFromText (content m)) inp)
                                          + estimateTokensFromText (rawText_of ai)))))) \<rparr>))"
    using gen [OF b] by simp
  then have "cache_after ?R (budget_key (js ''acme'') (js ''20260221''))
     = Some (JSON_stringify sample_platform
               (BudgetState_value \<lparr> requests = Fin 1, tokens = Fin 12 \<rparr>))"
    unfolding t e bid by simp
  moreover have "KB_CACHE (env_of budget_cfg) (budget_key (js ''acme'') (js ''20260221'')) = None"
    by (simp add: env_of_def)
  ultimately show ?thesis using ok by simp
qed

section \<open>The per-IP rate limit\<close>

lemma digit_char_is_digit: "d < 10 \<Longrightarrow> is_digit (digit_char d)"
proof -
  assume "d < 10"
  then have "d \<in> {0, 1, 2, 3, 4, 5, 6, 7, 8, 9}" by auto
  then show ?thesis by (auto simp: is_digit_def digit_char_def)
qed

lemma digit_val_digit_char: "d < 10 \<Longrightarrow> digit_val (digit_char d) = d"
proof -
  assume "d < 10"
  then have "d \<in> {0, 1, 2, 3, 4, 5, 6, 7, 8, 9}" by auto
  then show ?thesis by (auto simp: digit_val_def digit_char_def)
qed

lemma decimal_digits: "list_all is_digit (decimal n)"
proof (induction n rule: decimal.induct)
  case (1 n)
  show ?case
  proof (cases "n < 10")
    case True
    then show ?thesis by (subst decimal.simps) (simp add: digit_char_is_digit)
  next
    case False
    with "1" show ?thesis by (subst decimal.simps) (simp add: digit_char_is_digit)
  qed
qed

lemma decimal_value_append:
  "decimal_value (s @ [c]) = 10 * decimal_value s + digit_val c"
  by (simp add: decimal_value_def)

lemma decimal_value_decimal: "decimal_value (decimal n) = n"
proof (induction n rule: decimal.induct)
  case (1 n)
  show ?case
  proof (cases "n < 10")
    case True
    then show ?thesis
      by (subst decimal.simps) (simp add: decimal_value_def digit_val_digit_char)
  next
    case False
    with "1" show ?thesis
      by (subst decimal.simps) (simp add: decimal_value_append digit_val_digit_char)
  qed
qed

lemma decimal_inj: "decimal m = decimal n \<Longrightarrow> m = n"
  by (metis decimal_value_decimal)

lemma Number_str_decimal: "n \<le> 2 ^ 53 \<Longrightarrow> Number_str P (decimal n) = Fin (of_nat n)"
  by (simp add: Number_str_def decimal_nonempty decimal_digits decimal_value_decimal)

lemma String_num_nat: "n < 10 ^ 21 \<Longrightarrow> String_num P (Fin (of_nat n)) = decimal n"
proof -
  assume "n < 10 ^ 21"
  then have "(of_nat n :: real) < of_nat (10 ^ 21)" by (simp only: of_nat_less_iff)
  then show ?thesis by (simp add: String_num_def is_natural_def)
qed

lemma window_bucket_60: "window_bucket t (Fin 60) = Fin (of_nat (t div 60000))"
proof -
  have "\<lfloor>real t / real 60000\<rfloor> = int (t div 60000)"
    by (rule floor_divide_of_nat_eq)
  then show ?thesis by simp
qed


text \<open>The counter of one window, as the worker reads it: absent counts as zero.\<close>

lemma read_counter:
  "cache key = None \<Longrightarrow>
   or_zero (Number_str P (or_else (case cache key of Some v \<Rightarrow> v | None \<Rightarrow> []) (js ''0''))) = Fin 0"
  "cache key = Some (decimal n) \<Longrightarrow> n \<le> 2 ^ 53 \<Longrightarrow>
   or_zero (Number_str P (or_else (case cache key of Some v \<Rightarrow> v | None \<Rightarrow> []) (js ''0''))) = Fin (of_nat n)"
proof -
  have z: "js ''0'' = decimal 0" by (simp add: decimal.simps digit_char_def js_def)
  show "cache key = None \<Longrightarrow>
   or_zero (Number_str P (or_else (case cache key of Some v \<Rightarrow> v | None \<Rightarrow> []) (js ''0''))) = Fin 0"
    by (simp add: or_else_def z Number_str_decimal)
  show "cache key = Some (decimal n) \<Longrightarrow> n \<le> 2 ^ 53 \<Longrightarrow>
   or_zero (Number_str P (or_else (case cache key of Some v \<Rightarrow> v | None \<Rightarrow> []) (js ''0''))) = Fin (of_nat n)"
    by (simp add: or_else_def decimal_nonempty Number_str_decimal)
qed

lemma checkRateLimit_3_60:
  assumes "rateLimit cfg = Some \<lparr> limit = Some (Fin 3), windowSeconds = Some (Fin 60) \<rparr>"
    and "cache (rate_key P bid (ipFromReq req) (Fin (of_nat (t div 60000)))) = None \<and> n = 0
         \<or> cache (rate_key P bid (ipFromReq req) (Fin (of_nat (t div 60000)))) = Some (decimal n)"
    and "n \<le> 3"
  shows "checkRateLimit P t cache bid req (Some cfg) =
           (if n < 3
            then (\<lparr> rl_ok = True, rl_limit = Fin 3, rl_windowSeconds = Fin 60 \<rparr>,
                  cache(rate_key P bid (ipFromReq req) (Fin (of_nat (t div 60000))) \<mapsto> decimal (n + 1)))
            else (\<lparr> rl_ok = False, rl_limit = Fin 3, rl_windowSeconds = Fin 60 \<rparr>, cache))"
proof -
  let ?key = "rate_key P bid (ipFromReq req) (Fin (of_nat (t div 60000)))"
  from assms(3) have small: "n \<le> 2 ^ 53" by simp
  have cur: "or_zero (Number_str P (or_else (case cache ?key of Some v \<Rightarrow> v | None \<Rightarrow> []) (js ''0'')))
             = Fin (of_nat n)"
    using assms(2) small read_counter(1) [where cache = cache and key = ?key and P = P]
      read_counter(2) [where cache = cache and key = ?key and P = P and n = n] by auto
  have s: "String_num P (Fin (real n + 1)) = decimal (n + 1)" if "n < 3"
  proof -
    from that have "n + 1 < 10 ^ 21" by simp
    from String_num_nat [OF this, where P = P] show ?thesis by (simp add: add.commute)
  qed
  show ?thesis
    unfolding checkRateLimit_def
    by (simp add: assms(1) existing_or_def window_bucket_60 cur Let_def s del: window_bucket.simps)
qed

text \<open>After the rate limit, nothing writes a rate-limit counter.\<close>

lemma rate_key_prefix: "take 3 (rate_key P bid ip b) = js ''rl:''"
  by (simp add: rate_key_def js_def)

lemma rag_writes_rate_frame:
  "take 3 k = js ''rl:'' \<Longrightarrow> foldl apply_rag_write cache ws k = cache k"
proof (induction ws arbitrary: cache)
  case Nil
  show ?case by simp
next
  case (Cons w ws)
  from Cons.prems have "k \<noteq> js ''kb:'' @ u" "k \<noteq> js ''emb:'' @ u" for u
    by (auto simp: js_def)
  then show ?case
    by (cases w) (simp_all add: Cons.IH [OF Cons.prems])
qed

lemma finish_rate_frame:
  "take 3 k = js ''rl:'' \<Longrightarrow> snd (finish P a rid cache budget inp ai) k = cache k"
proof -
  assume "take 3 k = js ''rl:''"
  then have "k \<noteq> budget_key bid d" for bid d
    by (auto simp: budget_key_def js_def)
  then show ?thesis
    by (auto simp: finish_def Let_def incrementDailyBudget_def putBudgetState_def
             split: option.splits)
qed

lemma converse_rate_frame:
  assumes "take 3 k = js ''rl:''"
  shows "cache_after (converse P S a rid cache budget) k = cache k"
proof (cases rule: converse_cases [where P = P and S = S and a = a and rid = rid
                                      and cache = cache and budget = budget])
  case no_messages
  then show ?thesis by simp
next
  case (throws cache1 model1 inp maxTokens1 e)
  from throws(2) have "cache1 k = cache k"
    by (auto simp: prepare_def Let_def rag_writes_rate_frame [OF assms])
  with throws show ?thesis by simp
next
  case (returns cache1 model1 inp maxTokens1 ai)
  from returns(2) have "cache1 k = cache k"
    by (auto simp: prepare_def Let_def rag_writes_rate_frame [OF assms])
  with returns finish_rate_frame [OF assms] show ?thesis by simp
qed

lemma converse_not_rate_limited: "\<not> is_rate_limited (resp (converse P S a rid cache budget))"
  by (cases rule: converse_cases [where P = P and S = S and a = a and rid = rid
                                     and cache = cache and budget = budget])
     (simp_all add: is_rate_limited_def chat_err_def finish_resp chat_ok_def js_def)

text \<open>One admitted request against the counter of its window.\<close>

lemma serve_counts:
  assumes "rateLimit (adm_cfg a) = Some \<lparr> limit = Some (Fin 3), windowSeconds = Some (Fin 60) \<rparr>"
    and "cache (rate_key P (adm_botId a) (ipFromReq req) (Fin (of_nat (now_rate S div 60000)))) = None \<and> n = 0
         \<or> cache (rate_key P (adm_botId a) (ipFromReq req) (Fin (of_nat (now_rate S div 60000))))
            = Some (decimal n)"
    and "n < 3"
  shows "\<not> is_rate_limited (resp (serve P S cache req rid a))"
    and "cache_after (serve P S cache req rid a)
           (rate_key P (adm_botId a) (ipFromReq req) (Fin (of_nat (now_rate S div 60000))))
         = Some (decimal (n + 1))"
    and "take 3 k = js ''rl:'' \<Longrightarrow>
         k \<noteq> rate_key P (adm_botId a) (ipFromReq req) (Fin (of_nat (now_rate S div 60000))) \<Longrightarrow>
         cache_after (serve P S cache req rid a) k = cache k"
proof -
  let ?key = "rate_key P (adm_botId a) (ipFromReq req) (Fin (of_nat (now_rate S div 60000)))"
  have rl: "checkRateLimit P (now_rate S) cache (adm_botId a) req (Some (adm_cfg a))
            = (\<lparr> rl_ok = True, rl_limit = Fin 3, rl_windowSeconds = Fin 60 \<rparr>,
               cache(?key \<mapsto> decimal (n + 1)))"
    using checkRateLimit_3_60 [where cfg = "adm_cfg a" and cache = cache and P = P and bid = "adm_botId a"
            and req = req and t = "now_rate S" and n = n, OF assms(1,2)] assms(3) by simp
  have "\<not> is_rate_limited (resp (serve P S cache req rid a))
        \<and> cache_after (serve P S cache req rid a) ?key = Some (decimal (n + 1))
        \<and> (take 3 k = js ''rl:'' \<longrightarrow> k \<noteq> ?key \<longrightarrow> cache_after (serve P S cache req rid a) k = cache k)"
  proof (cases "checkDailyBudget P (now_budget S) (cache(?key \<mapsto> decimal (n + 1))) (adm_cfg a)")
    case (BudgetExceeded d)
    then show ?thesis
      by (simp add: serve_def rl is_rate_limited_def chat_err_def) (simp add: js_def)
  next
    case (BudgetOk budget)
    then have s: "serve P S cache req rid a = converse P S a rid (cache(?key \<mapsto> decimal (n + 1))) budget"
      by (simp add: serve_def rl)
    show ?thesis
      unfolding s
      by (simp add: converse_not_rate_limited converse_rate_frame rate_key_prefix)
  qed
  then show "\<not> is_rate_limited (resp (serve P S cache req rid a))"
    and "cache_after (serve P S cache req rid a) ?key = Some (decimal (n + 1))"
    and "take 3 k = js ''rl:'' \<Longrightarrow> k \<noteq> ?key \<Longrightarrow> cache_after (serve P S cache req rid a) k = cache k"
    by simp_all
qed

lemma serve_blocks:
  assumes "rateLimit (adm_cfg a) = Some \<lparr> limit = Some (Fin 3), windowSeconds = Some (Fin 60) \<rparr>"
    and "cache (rate_key P (adm_botId a) (ipFromReq req) (Fin (of_nat (now_rate S div 60000))))
         = Some (decimal 3)"
  shows "serve P S cache req rid a =
           \<lparr> resp = json 429
                      (chat_err (js ''RATE_LIMITED'') (JStr (js ''Too many requests. Limit 3/60s.'')))
                      rid (cors (adm_origin a) @ [(js ''Retry-After'', js ''60'')]),
             cache_after = cache, sent = None \<rparr>"
proof -
  have rl: "checkRateLimit P (now_rate S) cache (adm_botId a) req (Some (adm_cfg a))
            = (\<lparr> rl_ok = False, rl_limit = Fin 3, rl_windowSeconds = Fin 60 \<rparr>, cache)"
    using checkRateLimit_3_60 [where cfg = "adm_cfg a" and cache = cache and P = P and bid = "adm_botId a"
            and req = req and t = "now_rate S" and n = 3, OF assms(1)] assms(2)
    by simp
  have s: "String_num P (Fin 3) = js ''3''" "String_num P (Fin 60) = js ''60''"
    by (simp_all add: String_num_def is_natural_def decimal.simps digit_char_def js_def)
  show ?thesis
    by (simp add: serve_def rl s) (simp add: js_def)
qed

lemma admit_any_requestId:
  "admit P store req rid = Inr a \<Longrightarrow> admit P store req rid' = Inr a"
  by (auto simp: admit_def Let_def split: if_splits option.splits)

lemma rate_keys_differ:
  assumes "m < 10 ^ 21" "n < 10 ^ 21" "m \<noteq> n"
  shows "rate_key P bid ip (Fin (of_nat m)) \<noteq> rate_key P bid ip (Fin (of_nat n))"
  using assms by (auto simp: rate_key_def String_num_nat dest: decimal_inj)

lemma retry_after_header:
  "map_of (cors origin1 @ [(js ''Retry-After'', v)]) (js ''Retry-After'') = Some v"
  by (simp add: cors_def js_def)

text \<open>
  C6. A bot with \<open>limit = 3\<close> and \<open>windowSeconds = 60\<close>; five requests in sequence from
  the same client to the same bot, each starting from the cache the previous one left; the
  first four fall into the same window of 60 seconds, whose counter was absent at the
  start, the fifth into the next window. The first three are not rejected by the rate
  limiter, the fourth is rejected with status 429 and \<^verbatim>\<open>Retry-After: 60\<close>, and the fifth
  is again not rejected by the rate limiter. The inference service, the retrieval step and
  the request identifiers may differ from request to request.
\<close>

theorem fourth_request_in_window_is_rate_limited:
  assumes "admit P store req rid1 = Inr a"
    and "rateLimit (adm_cfg a) = Some \<lparr> limit = Some (Fin 3), windowSeconds = Some (Fin 60) \<rparr>"
    and "now_rate S1 div 60000 = b" "now_rate S2 div 60000 = b"
        "now_rate S3 div 60000 = b" "now_rate S4 div 60000 = b"
    and "now_rate S5 div 60000 = b + 1" "b + 1 < 10 ^ 21"
    and "c0 (rate_key P (adm_botId a) (ipFromReq req) (Fin (of_nat b))) = None"
        "c0 (rate_key P (adm_botId a) (ipFromReq req) (Fin (of_nat (b + 1)))) = None"
  shows "let r1 = handleChat P S1 \<lparr> BOT_CONFIG = store, KB_CACHE = c0 \<rparr> req rid1;
             r2 = handleChat P S2 \<lparr> BOT_CONFIG = store, KB_CACHE = cache_after r1 \<rparr> req rid2;
             r3 = handleChat P S3 \<lparr> BOT_CONFIG = store, KB_CACHE = cache_after r2 \<rparr> req rid3;
             r4 = handleChat P S4 \<lparr> BOT_CONFIG = store, KB_CACHE = cache_after r3 \<rparr> req rid4;
             r5 = handleChat P S5 \<lparr> BOT_CONFIG = store, KB_CACHE = cache_after r4 \<rparr> req rid5
         in \<not> is_rate_limited (resp r1) \<and> \<not> is_rate_limited (resp r2) \<and> \<not> is_rate_limited (resp r3)
            \<and> is_rate_limited (resp r4) \<and> status (resp r4) = 429
            \<and> map_of (extra_headers (resp r4)) (js ''Retry-After'') = Some (js ''60'')
            \<and> \<not> is_rate_limited (resp r5)"
proof -
  let ?K = "rate_key P (adm_botId a) (ipFromReq req) (Fin (of_nat b))"
  let ?K' = "rate_key P (adm_botId a) (ipFromReq req) (Fin (of_nat (b + 1)))"
  define r1 where "r1 = handleChat P S1 \<lparr> BOT_CONFIG = store, KB_CACHE = c0 \<rparr> req rid1"
  define r2 where "r2 = handleChat P S2 \<lparr> BOT_CONFIG = store, KB_CACHE = cache_after r1 \<rparr> req rid2"
  define r3 where "r3 = handleChat P S3 \<lparr> BOT_CONFIG = store, KB_CACHE = cache_after r2 \<rparr> req rid3"
  define r4 where "r4 = handleChat P S4 \<lparr> BOT_CONFIG = store, KB_CACHE = cache_after r3 \<rparr> req rid4"
  define r5 where "r5 = handleChat P S5 \<lparr> BOT_CONFIG = store, KB_CACHE = cache_after r4 \<rparr> req rid5"
  have h: "handleChat P S \<lparr> BOT_CONFIG = store, KB_CACHE = c \<rparr> req rid = serve P S c req rid a"
    for S c rid
    using admit_any_requestId [OF assms(1), of rid] by (simp add: handleChat_def)
  have K': "take 3 ?K' = js ''rl:''" by (rule rate_key_prefix)
  have ne: "?K' \<noteq> ?K"
    using assms(8) by (intro rate_keys_differ) simp_all
  note lim = assms(2)
  have step: "\<not> is_rate_limited (resp (serve P S c req rid a))
              \<and> cache_after (serve P S c req rid a) ?K = Some (decimal (n + 1))
              \<and> cache_after (serve P S c req rid a) ?K' = c ?K'"
    if "now_rate S div 60000 = b" "c ?K = None \<and> n = 0 \<or> c ?K = Some (decimal n)" "n < 3"
    for S c rid n
  proof -
    from that(2) have c: "c (rate_key P (adm_botId a) (ipFromReq req) (Fin (of_nat (now_rate S div 60000)))) = None
              \<and> n = 0
            \<or> c (rate_key P (adm_botId a) (ipFromReq req) (Fin (of_nat (now_rate S div 60000))))
              = Some (decimal n)"
      by (simp add: that(1))
    note sc = serve_counts [where a = a and cache = c and P = P and req = req and S = S and n = n
                              and rid = rid, OF lim c that(3)]
    from sc(1) sc(2) sc(3) [of ?K'] K' ne show ?thesis by (simp add: that(1))
  qed
  \<comment> \<open>the first three requests\<close>
  have s1: "\<not> is_rate_limited (resp r1) \<and> cache_after r1 ?K = Some (decimal 1) \<and> cache_after r1 ?K' = None"
    unfolding r1_def h
    using step [where S = S1 and c = c0 and n = 0 and rid = rid1] assms(3,9,10) by simp
  have s2: "\<not> is_rate_limited (resp r2) \<and> cache_after r2 ?K = Some (decimal 2) \<and> cache_after r2 ?K' = None"
    unfolding r2_def h
    using step [where S = S2 and c = "cache_after r1" and n = 1 and rid = rid2] assms(4) s1
    by (simp add: numeral_2_eq_2)
  have s3: "\<not> is_rate_limited (resp r3) \<and> cache_after r3 ?K = Some (decimal 3) \<and> cache_after r3 ?K' = None"
    unfolding r3_def h
    using step [where S = S3 and c = "cache_after r2" and n = 2 and rid = rid3] assms(5) s2
    by (simp add: numeral_2_eq_2 numeral_3_eq_3)
  \<comment> \<open>the fourth request\<close>
  have c3: "cache_after r3 (rate_key P (adm_botId a) (ipFromReq req) (Fin (of_nat (now_rate S4 div 60000))))
            = Some (decimal 3)"
    using s3 by (simp add: assms(6))
  have r4: "r4 = \<lparr> resp = json 429
                      (chat_err (js ''RATE_LIMITED'') (JStr (js ''Too many requests. Limit 3/60s.'')))
                      rid4 (cors (adm_origin a) @ [(js ''Retry-After'', js ''60'')]),
                  cache_after = cache_after r3, sent = None \<rparr>"
    unfolding r4_def h
    by (rule serve_blocks [where a = a and cache = "cache_after r3" and P = P and req = req and S = S4,
                           OF lim c3])
  have a4: "is_rate_limited (resp r4)" "status (resp r4) = 429"
    "map_of (extra_headers (resp r4)) (js ''Retry-After'') = Some (js ''60'')"
    by (simp_all add: r4 is_rate_limited_def chat_err_def retry_after_header del: map_of_append)
  \<comment> \<open>the request in the next window\<close>
  have c4: "cache_after r4 (rate_key P (adm_botId a) (ipFromReq req) (Fin (of_nat (now_rate S5 div 60000)))) = None
              \<and> (0::nat) = 0
            \<or> cache_after r4 (rate_key P (adm_botId a) (ipFromReq req) (Fin (of_nat (now_rate S5 div 60000))))
              = Some (decimal 0)"
    using s3 by (simp add: r4 assms(7))
  have n0: "(0::nat) < 3" by simp
  have a5: "\<not> is_rate_limited (resp r5)"
    unfolding r5_def h
    by (rule serve_counts(1) [where a = a and cache = "cache_after r4" and P = P and req = req
                                and S = S5 and n = 0, OF lim c4 n0])
  from s1 s2 s3 a4 a5 show ?thesis
    unfolding Let_def r1_def [symmetric] r2_def [symmetric] r3_def [symmetric] r4_def [symmetric]
      r5_def [symmetric]
    by simp
qed

text \<open>
  C6, an instance: the bot \<^verbatim>\<open>acme\<close> (3 requests per 60 seconds), four requests 120, 130,
  140 and 150 seconds after the epoch and a fifth after 180 seconds, answered by services
  that reply, fail, reply with an action and reply.
\<close>

theorem fourth_request_in_window_is_rate_limited_witness:
  "let r1 = handleChat sample_platform (services_with 120000 plain_reply)
              \<lparr> BOT_CONFIG = BOT_CONFIG (env_of acme_cfg), KB_CACHE = Map.empty \<rparr> hello_request (js ''r1'');
       r2 = handleChat sample_platform (services_with 130000 upstream_failure)
              \<lparr> BOT_CONFIG = BOT_CONFIG (env_of acme_cfg), KB_CACHE = cache_after r1 \<rparr> hello_request (js ''r2'');
       r3 = handleChat sample_platform (services_with 140000 lead_reply)
              \<lparr> BOT_CONFIG = BOT_CONFIG (env_of acme_cfg), KB_CACHE = cache_after r2 \<rparr> hello_request (js ''r3'');
       r4 = handleChat sample_platform (services_with 150000 plain_reply)
              \<lparr> BOT_CONFIG = BOT_CONFIG (env_of acme_cfg), KB_CACHE = cache_after r3 \<rparr> hello_request (js ''r4'');
       r5 = handleChat sample_platform (services_with 180000 plain_reply)
              \<lparr> BOT_CONFIG = BOT_CONFIG (env_of acme_cfg), KB_CACHE = cache_after r4 \<rparr> hello_request (js ''r5'')
   in \<not> is_rate_limited (resp r1) \<and> \<not> is_rate_limited (resp r2) \<and> \<not> is_rate_limited (resp r3)
      \<and> is_rate_limited (resp r4) \<and> status (resp r4) = 429
      \<and> map_of (extra_headers (resp r4)) (js ''Retry-After'') = Some (js ''60'')
      \<and> \<not> is_rate_limited (resp r5)"
proof -
  have lim: "rateLimit (adm_cfg (hello_admission acme_cfg))
             = Some \<lparr> limit = Some (Fin 3), windowSeconds = Some (Fin 60) \<rparr>"
    by (simp add: hello_admission_def acme_cfg_def)
  have t: "now_rate (services_with 120000 plain_reply) div 60000 = 2"
    "now_rate (services_with 130000 upstream_failure) div 60000 = 2"
    "now_rate (services_with 140000 lead_reply) div 60000 = 2"
    "now_rate (services_with 150000 plain_reply) div 60000 = 2"
    "now_rate (services_with 180000 plain_reply) div 60000 = 2 + 1"
    by (simp_all add: services_with_def)
  have b: "(2::nat) + 1 < 10 ^ 21" by simp
  have f: "Map.empty (rate_key sample_platform (adm_botId (hello_admission acme_cfg))
                        (ipFromReq hello_request) (Fin (of_nat 2))) = None"
    "Map.empty (rate_key sample_platform (adm_botId (hello_admission acme_cfg))
                  (ipFromReq hello_request) (Fin (of_nat (2 + 1)))) = None"
    by simp_all
  show ?thesis
    by (rule fourth_request_in_window_is_rate_limited [OF admit_hello_acme lim t b f])
qed

section \<open>Writing the same configuration twice\<close>




lemma trim_fixed: "s \<noteq> [] \<Longrightarrow> \<not> is_space (hd s) \<Longrightarrow> \<not> is_space (last s) \<Longrightarrow> trim s = s"
proof -
  assume s: "s \<noteq> []" "\<not> is_space (hd s)" "\<not> is_space (last s)"
  then have d: "dropWhile is_space s = s" by (cases s) simp_all
  from s have "rev s \<noteq> []" "\<not> is_space (hd (rev s))" by (simp_all add: hd_rev)
  then have "dropWhile is_space (rev s) = rev s" by (cases "rev s") simp_all
  then show ?thesis by (simp add: trim_def d)
qed


lemma existing_or_Some: "f c = Some n \<Longrightarrow> existing_or (Some c) f d = n"
  by (simp add: existing_or_def)





































text \<open>The sample runtimes parse what they print.\<close>

lemma sample_URL_roundtrip:
  assumes "sample_URL s = Some u"
  shows "trim (url_href u) = url_href u" "url_href u \<noteq> []" "sample_URL (url_href u) = Some u"
    "trim (url_origin u) = url_origin u" "sample_URL (url_origin u) = Some u"
    "take 8 (url_href u) = js ''https://''" "take 8 (url_origin u) = js ''https://''"
proof -
  define h where "h = takeWhile (\<lambda>c. c \<noteq> 0x2F) (drop 8 s)"
  from assms have h: "h \<noteq> []" "\<not> list_ex is_space h"
    and u: "u = \<lparr> url_protocol = js ''https:'', url_origin = js ''https://'' @ h,
                  url_href = js ''https://'' @ h @ [0x2F] \<rparr>"
    by (auto simp: sample_URL_def Let_def h_def split: if_splits)
  have nos: "c \<noteq> 0x2F" if "c \<in> set h" for c
    using that unfolding h_def by (auto dest: set_takeWhileD)
  have tw: "takeWhile (\<lambda>c. c \<noteq> 0x2F) (h @ r) = h @ takeWhile (\<lambda>c. c \<noteq> 0x2F) r" for r
    by (rule takeWhile_append2) (use nos in auto)
  have dw: "dropWhile (\<lambda>c. c \<noteq> 0x2F) (h @ r) = dropWhile (\<lambda>c. c \<noteq> 0x2F) r" for r
    by (rule dropWhile_append2) (use nos in auto)
  have tw0: "takeWhile (\<lambda>c. c \<noteq> 0x2F) h = h"
    using nos by (simp add: takeWhile_eq_all_conv)
  have dw0: "dropWhile (\<lambda>c. c \<noteq> 0x2F) h = []"
    using nos by simp
  have d8: "drop 8 (js ''https://'' @ r) = r" "take 8 (js ''https://'' @ r) = js ''https://''" for r
    by (simp_all add: js_def)
  show "sample_URL (url_href u) = Some u"
    unfolding u sample_URL_def Let_def url.simps d8 tw dw using h by simp
  show "sample_URL (url_origin u) = Some u"
    unfolding u sample_URL_def Let_def url.simps d8 tw0 dw0 using h by simp
  from h have "last h \<in> set h" by simp
  with h(2) have lh: "\<not> is_space (last h)" by (auto simp: list_ex_iff)
  show "trim (url_href u) = url_href u"
    unfolding u url.simps by (rule trim_fixed) (simp_all add: js_def is_space_def)
  show "trim (url_origin u) = url_origin u"
    unfolding u url.simps by (rule trim_fixed) (use h lh in \<open>simp_all add: js_def is_space_def\<close>)
  show "url_href u \<noteq> []" by (simp add: u)
  show "take 8 (url_href u) = js ''https://''" "take 8 (url_origin u) = js ''https://''"
    by (simp_all only: u url.simps d8)
qed


lemma file_URL_stable: "URL_stable file_platform"
  unfolding URL_stable_def
proof (intro allI impI)
  fix s u
  assume "URL_parse file_platform s = Some u"
  then have p: "file_URL s = Some u" by (simp add: file_platform_def sample_platform_def)
  have f: "URL_parse file_platform = file_URL" by (simp add: file_platform_def sample_platform_def)
  show "trim (url_href u) \<noteq> []
        \<and> (\<exists>u'. URL_parse file_platform (trim (url_href u)) = Some u'
                 \<and> url_href u' = url_href u \<and> url_protocol u' = url_protocol u)
        \<and> (\<forall>u'. URL_parse file_platform (trim (url_origin u)) = Some u' \<longrightarrow> url_origin u' = url_origin u)"
  proof (cases "s = js ''file:///x''")
    case True
    with p have u: "u = \<lparr> url_protocol = js ''file:'', url_origin = js ''null'', url_href = js ''file:///x'' \<rparr>"
      by (simp add: file_URL_def)
    have t: "trim (js ''file:///x'') = js ''file:///x''" "trim (js ''null'') = js ''null''"
      by (simp_all add: value_defs)
    have n: "file_URL (js ''null'') = None"
      by (simp add: file_URL_def sample_URL_def js_def)
    show ?thesis unfolding f u url.simps t n by (simp add: file_URL_def) (simp add: js_def)
  next
    case False
    with p have q: "sample_URL s = Some u" by (simp add: file_URL_def)
    note r = sample_URL_roundtrip [OF q]
    have ne: "url_href u \<noteq> js ''file:///x''" "url_origin u \<noteq> js ''file:///x''"
      using r(6,7) by (auto simp: js_def)
    show ?thesis unfolding f r(1) r(4) using r(2,3,5) ne by (simp add: file_URL_def)
  qed
qed







end
